theory Spec2Isabelle
  imports Complex_Main "HOL-Library.Word"
begin

unbundle bit_operations_syntax

text \<open>
  A shallow embedding of the credential layer of the repository: the parser and the
  resolver of secret references with their cache, the pass backend, the tiered vault
  backend with its one-time codes and approval exchange, and the command policy gate.
  Module variables and files on disk are explicit state, passed in and returned.  What
  lies outside the program (the clock, the shell, the file system, the chat transport,
  the keyed hash, the regular-expression engine) is a parameter or a field of a record
  that describes the outside world; a throw is the \<open>Inl\<close> of a sum or a \<open>None\<close>.
  The definitions come first, section by section in the order of the sources; sample
  inputs and the theorems follow.
\<close>

section \<open>String primitives of the host language\<close>

text \<open>
  Strings are modelled as lists of 8-bit characters; the source strings are taken to be
  ASCII (Latin-1 at most).  The character classes below are the ones the regular
  expressions of the sources use: \<open>\w\<close> is \<open>[A-Za-z0-9_]\<close>, \<open>\s\<close> is the white space
  of the language, and \<open>.\<close> matches everything but a line terminator.
\<close>

definition isWordChar :: "char \<Rightarrow> bool" where
  "isWordChar c =
     (let n = (of_char c :: nat)
      in (48 \<le> n \<and> n \<le> 57) \<or> (65 \<le> n \<and> n \<le> 90) \<or> n = 95 \<or> (97 \<le> n \<and> n \<le> 122))"

definition isLineTerminator :: "char \<Rightarrow> bool" where
  "isLineTerminator c = (let n = (of_char c :: nat) in n = 10 \<or> n = 13)"

definition isSpace :: "char \<Rightarrow> bool" where
  "isSpace c = (let n = (of_char c :: nat) in (9 \<le> n \<and> n \<le> 13) \<or> n = 32 \<or> n = 160)"

text \<open>\<open>stripPrefix p s\<close> is the rest of \<open>s\<close> after the literal prefix \<open>p\<close>, if \<open>s\<close> starts with it.\<close>

fun stripPrefix :: "string \<Rightarrow> string \<Rightarrow> string option" where
  "stripPrefix [] s = Some s"
| "stripPrefix (p # ps) [] = None"
| "stripPrefix (p # ps) (c # cs) = (if p = c then stripPrefix ps cs else None)"

section \<open>Secret references (src/secrets/types.ts, src/secrets/resolver.ts)\<close>

datatype SecretsBackendType = Pass | Vault | Keyring | Env | File | Ganesh

record SecretRef =
  backend :: SecretsBackendType
  path :: string
  field :: "string option"

text \<open>
  The prefix test of \<open>parseSecretRef\<close> is the regular expression
  \<^verbatim>\<open>/^(pass|vault|keyring|env|file):(.+)$/\<close>: one of the five listed names, a colon, and
  a non-empty rest without line terminators up to the end of the string.  The
  alternatives are tried in the order they are written.
\<close>

definition prefixNames :: "(string \<times> SecretsBackendType) list" where
  "prefixNames =
     [(''pass'', Pass), (''vault'', Vault), (''keyring'', Keyring), (''env'', Env), (''file'', File)]"

fun matchPrefixOf :: "(string \<times> SecretsBackendType) list \<Rightarrow> string \<Rightarrow> (SecretsBackendType \<times> string) option" where
  "matchPrefixOf [] ref = None"
| "matchPrefixOf ((name, b) # rest) ref =
     (case stripPrefix (name @ '':'') ref of
        Some r \<Rightarrow> if r \<noteq> [] \<and> \<not> list_ex isLineTerminator r then Some (b, r)
                  else matchPrefixOf rest ref
      | None \<Rightarrow> matchPrefixOf rest ref)"

definition prefixMatch :: "string \<Rightarrow> (SecretsBackendType \<times> string) option" where
  "prefixMatch ref = matchPrefixOf prefixNames ref"

text \<open>
  The field test is \<^verbatim>\<open>/^(.+)#(\w+)$/\<close>: the string ends in a non-empty run of word
  characters that follows a \<open>#\<close>, and what stands before that \<open>#\<close> is non-empty and free
  of line terminators.  A word character is never \<open>#\<close>, so the run is the longest one
  at the end of the string.
\<close>

definition fieldMatch :: "string \<Rightarrow> (string \<times> string) option" where
  "fieldMatch s =
     (let f = rev (takeWhile isWordChar (rev s));
          front = rev (dropWhile isWordChar (rev s))
      in if f \<noteq> [] \<and> front \<noteq> [] \<and> last front = CHR ''#'' \<and> butlast front \<noteq> []
            \<and> \<not> list_ex isLineTerminator (butlast front)
         then Some (butlast front, f) else None)"

definition parseSecretRef :: "string \<Rightarrow> SecretsBackendType \<Rightarrow> SecretRef" where
  "parseSecretRef ref defaultBackend =
     (let (b, pathWithField) =
            (case prefixMatch ref of Some (b, r) \<Rightarrow> (b, r) | None \<Rightarrow> (defaultBackend, ref))
      in case fieldMatch pathWithField of
           Some (p, f) \<Rightarrow> \<lparr>backend = b, path = p, field = Some f\<rparr>
         | None \<Rightarrow> \<lparr>backend = b, path = pathWithField, field = None\<rparr>)"

record SecretResolutionResult =
  ok :: bool
  "value" :: "string option"
  error :: "string option"
  cached :: "bool option"

record PassBackendConfig =
  storePath :: "string option"
  gpgPath :: "string option"

record SecretsBackendConfig =
  cfgBackend :: SecretsBackendType
  cfgPass :: "PassBackendConfig option"

definition backendName :: "SecretsBackendType \<Rightarrow> string" where
  "backendName b =
     (case b of Pass \<Rightarrow> ''pass'' | Vault \<Rightarrow> ''vault'' | Keyring \<Rightarrow> ''keyring''
      | Env \<Rightarrow> ''env'' | File \<Rightarrow> ''file'' | Ganesh \<Rightarrow> ''ganesh'')"

section \<open>The pass backend (class PassBackend, src/unnamed/part_002)\<close>

text \<open>
  The outside world of the pass backend: the process environment, the file system's
  existence test and the shell.  A shell command either fails (\<open>Inl\<close> of the error
  message: non-zero exit, time-out, missing binary) or returns its standard output
  (\<open>Inr\<close>).  The environment handed to the shell is reduced to the two variables the
  backend sets.
\<close>

record exec_env =
  PASSWORD_STORE_DIR :: string
  PASSWORD_STORE_GPG_OPTS :: "string option"

record host =
  envPasswordStoreDir :: "string option"
  homedir :: string
  whichPass :: bool
  pathExists :: "string \<Rightarrow> bool"
  exec :: "string \<Rightarrow> exec_env \<Rightarrow> string + string"

record PassBackend =
  pbConfig :: PassBackendConfig
  pbStorePath :: string

definition truthy :: "string option \<Rightarrow> bool" where
  "truthy v = (case v of None \<Rightarrow> False | Some s \<Rightarrow> s \<noteq> [])"

definition pathJoin :: "string \<Rightarrow> string \<Rightarrow> string" where
  "pathJoin a b = a @ ''/'' @ b"

definition newPassBackend :: "host \<Rightarrow> PassBackendConfig option \<Rightarrow> PassBackend" where
  "newPassBackend h config =
     (let c = (case config of None \<Rightarrow> \<lparr>storePath = None, gpgPath = None\<rparr> | Some c \<Rightarrow> c)
      in \<lparr>pbConfig = c,
          pbStorePath =
            (if truthy (storePath c) then the (storePath c)
             else if truthy (envPasswordStoreDir h) then the (envPasswordStoreDir h)
             else pathJoin (homedir h) ''.password-store'')\<rparr>)"

definition passIsAvailable :: "host \<Rightarrow> PassBackend \<Rightarrow> bool" where
  "passIsAvailable h b =
     (if \<not> whichPass h then False
      else if \<not> pathExists h (pbStorePath b) then False
      else if \<not> pathExists h (pathJoin (pbStorePath b) ''.gpg-id'') then False
      else True)"

definition isAlnum :: "char \<Rightarrow> bool" where
  "isAlnum c =
     (let n = (of_char c :: nat)
      in (48 \<le> n \<and> n \<le> 57) \<or> (65 \<le> n \<and> n \<le> 90) \<or> (97 \<le> n \<and> n \<le> 122))"

text \<open>The sanitiser \<^verbatim>\<open>secretPath.replace(/[^a-zA-Z0-9_\-/]/g, "")\<close>.\<close>

definition sanitizePath :: "string \<Rightarrow> string" where
  "sanitizePath p = filter (\<lambda>c. isAlnum c \<or> c = CHR ''_'' \<or> c = CHR ''-'' \<or> c = CHR ''/'') p"

definition trim :: "string \<Rightarrow> string" where
  "trim s = rev (dropWhile isSpace (rev (dropWhile isSpace s)))"

text \<open>\<^verbatim>\<open>stdout.split("\n")[0]\<close>: the text before the first line feed (all of it if there is none).\<close>

definition firstLine :: "string \<Rightarrow> string" where
  "firstLine s = takeWhile (\<lambda>c. c \<noteq> CHR 0x0A) s"

definition passShowCommand :: "string \<Rightarrow> string" where
  "passShowCommand p = ''pass show '' @ [CHR 0x22] @ p @ [CHR 0x22]"

definition passEnv :: "PassBackend \<Rightarrow> exec_env" where
  "passEnv b =
     \<lparr>PASSWORD_STORE_DIR = pbStorePath b,
      PASSWORD_STORE_GPG_OPTS =
        (if truthy (gpgPath (pbConfig b)) then Some (''--gpg '' @ the (gpgPath (pbConfig b)))
         else None)\<rparr>"

text \<open>
  \<open>PassBackend.resolve\<close>: the whole body stands in a \<open>try\<close> whose \<open>catch\<close> returns
  \<open>null\<close> for every failure of the command, whatever its message says.
\<close>

definition passResolve :: "host \<Rightarrow> PassBackend \<Rightarrow> string \<Rightarrow> string option \<Rightarrow> string option" where
  "passResolve h b secretPath fld =
     (let env = passEnv b;
          sanitizedPath = sanitizePath secretPath
      in case exec h (passShowCommand sanitizedPath) env of
           Inr stdout \<Rightarrow>
             (let v = trim (firstLine stdout) in if v = [] then None else Some v)
         | Inl message \<Rightarrow> None)"

section \<open>The resolver (src/secrets/resolver.ts)\<close>

definition CACHE_TTL_MS :: int where
  "CACHE_TTL_MS = 5 * 60 * 1000"

text \<open>
  \<open>createBackend\<close> throws for every backend but \<open>pass\<close>; a throw is \<open>Inl\<close> of the
  error's message.
\<close>

definition createBackend :: "host \<Rightarrow> SecretsBackendConfig \<Rightarrow> string + PassBackend" where
  "createBackend h config =
     (case cfgBackend config of
        Pass \<Rightarrow> Inr (newPassBackend h (cfgPass config))
      | Vault \<Rightarrow> Inl ''Vault backend not yet implemented''
      | Keyring \<Rightarrow> Inl ''Keyring backend not yet implemented''
      | Env \<Rightarrow> Inl ''Env backend not yet implemented''
      | File \<Rightarrow> Inl ''File backend does not support resolution''
      | Ganesh \<Rightarrow> Inl (''Unknown secrets backend: '' @ backendName Ganesh))"

text \<open>
  The module's state: the cache of resolved secrets, keyed by the reference string,
  and the backend instances.  \<open>backendCalls\<close> is a ghost log of the calls made to a
  backend's \<open>isAvailable\<close> and \<open>resolve\<close>.
\<close>

datatype backend_call = IsAvailableCall SecretsBackendType | ResolveCall string "string option"

record resolver_state =
  secretsCache :: "string \<rightharpoonup> (string \<times> int)"
  backendInstances :: "SecretsBackendType \<rightharpoonup> PassBackend"
  backendCalls :: "backend_call list"

definition getBackend ::
  "host \<Rightarrow> SecretsBackendType \<Rightarrow> SecretsBackendConfig option \<Rightarrow> resolver_state
     \<Rightarrow> string + (PassBackend \<times> resolver_state)" where
  "getBackend h type config s =
     (case backendInstances s type of
        Some b \<Rightarrow> Inr (b, s)
      | None \<Rightarrow>
          (let backendConfig =
                 (case config of Some c \<Rightarrow> c | None \<Rightarrow> \<lparr>cfgBackend = type, cfgPass = None\<rparr>)
           in case createBackend h backendConfig of
                Inl e \<Rightarrow> Inl e
              | Inr b \<Rightarrow> Inr (b, s\<lparr>backendInstances := (backendInstances s)(type \<mapsto> b)\<rparr>)))"

text \<open>The default backend of a call, \<^verbatim>\<open>config?.backend || "pass"\<close>.\<close>

definition defaultBackendOf :: "SecretsBackendConfig option \<Rightarrow> SecretsBackendType" where
  "defaultBackendOf config = (case config of Some c \<Rightarrow> cfgBackend c | None \<Rightarrow> Pass)"

text \<open>
  The body of the \<open>try\<close> block of \<open>resolveSecret\<close>; \<open>tStore\<close> is the clock reading taken
  when the value is cached.
\<close>

definition resolveUncached ::
  "host \<Rightarrow> int \<Rightarrow> string \<Rightarrow> SecretsBackendConfig option \<Rightarrow> resolver_state
     \<Rightarrow> string + (SecretResolutionResult \<times> resolver_state)" where
  "resolveUncached h tStore ref config s =
     (let parsed = parseSecretRef ref (defaultBackendOf config)
      in case getBackend h (backend parsed) config s of
           Inl e \<Rightarrow> Inl e
         | Inr (b, s1) \<Rightarrow>
             (let s2 = s1\<lparr>backendCalls := backendCalls s1 @ [IsAvailableCall (backend parsed)]\<rparr>
              in if \<not> passIsAvailable h b
                 then Inr (\<lparr>ok = False, value = None,
                            error = Some (''Backend '' @ [CHR 0x22] @ backendName (backend parsed)
                                          @ [CHR 0x22] @ '' is not available''),
                            cached = None\<rparr>, s2)
                 else
                   (let s3 = s2\<lparr>backendCalls :=
                                  backendCalls s2 @ [ResolveCall (path parsed) (field parsed)]\<rparr>
                    in case passResolve h b (path parsed) (field parsed) of
                         None \<Rightarrow>
                           Inr (\<lparr>ok = False, value = None,
                                 error = Some (''Secret not found: '' @ ref), cached = None\<rparr>, s3)
                       | Some v \<Rightarrow>
                           Inr (\<lparr>ok = True, value = Some v, error = None, cached = None\<rparr>,
                                s3\<lparr>secretsCache := (secretsCache s3)(ref \<mapsto> (v, tStore))\<rparr>))))"

text \<open>
  \<open>resolveSecret\<close>: \<open>tCheck\<close> is the clock reading of the cache test, \<open>tStore\<close> the later
  one of the cache write.
\<close>

definition cacheFresh :: "int \<Rightarrow> resolver_state \<Rightarrow> string \<Rightarrow> string option" where
  "cacheFresh tCheck s ref =
     (case secretsCache s ref of
        Some (v, resolvedAt) \<Rightarrow> if tCheck - resolvedAt < CACHE_TTL_MS then Some v else None
      | None \<Rightarrow> None)"

definition resolveSecret ::
  "host \<Rightarrow> int \<Rightarrow> int \<Rightarrow> string \<Rightarrow> SecretsBackendConfig option \<Rightarrow> resolver_state
     \<Rightarrow> SecretResolutionResult \<times> resolver_state" where
  "resolveSecret h tCheck tStore ref config s =
     (case cacheFresh tCheck s ref of
        Some v \<Rightarrow> (\<lparr>ok = True, value = Some v, error = None, cached = Some True\<rparr>, s)
      | None \<Rightarrow>
          (case resolveUncached h tStore ref config s of
             Inr (r, s') \<Rightarrow> (r, s')
           | Inl message \<Rightarrow> (\<lparr>ok = False, value = None, error = Some message, cached = None\<rparr>, s)))"

text \<open>The two result shapes the theorems name: a failure with a message, and a cache hit.\<close>

definition errorResult :: "string \<Rightarrow> SecretResolutionResult" where
  "errorResult message = \<lparr>ok = False, value = None, error = Some message, cached = None\<rparr>"


section \<open>One-time codes (src/secrets/backends/ganesh.ts, generateTotp and verifyTotp)\<close>

text \<open>
  Times are millisecond time stamps, integers that a number of the language holds
  exactly.  The keyed hash of the platform's crypto library is a parameter \<open>hmac\<close>: it
  takes the key and the message and returns the digest, all as byte lists.
\<close>

type_synonym byte = "8 word"

definition totpCounter :: "int \<Rightarrow> int" where
  "totpCounter time = \<lfloor>real_of_int time / 1000 / 30\<rfloor>"

text \<open>\<^verbatim>\<open>buffer.writeBigInt64BE(BigInt(counter))\<close>: eight bytes, most significant first.\<close>

definition counterBuffer :: "int \<Rightarrow> byte list" where
  "counterBuffer counter =
     map (\<lambda>i. ucast (drop_bit (8 * i) (word_of_int counter :: 64 word))) [7, 6, 5, 4, 3, 2, 1, 0]"

text \<open>
  \<open>toUpperCase\<close> on 8-bit characters: the letters \<open>a\<close> to \<open>z\<close> and the accented small
  letters go to their capitals, and the sharp s (code 223) to the two letters \<open>SS\<close>.
  The two characters whose capital lies beyond 8 bits (codes 181 and 255) stay as they
  are; neither they nor their capitals are base-32 characters.
\<close>

definition upperChar :: "char \<Rightarrow> string" where
  "upperChar c =
     (let n = (of_char c :: nat)
      in if 97 \<le> n \<and> n \<le> 122 then [char_of (n - 32)]
         else if n = 223 then ''SS''
         else if 224 \<le> n \<and> n \<le> 254 \<and> n \<noteq> 247 then [char_of (n - 32)]
         else [c])"

definition toUpperCase :: "string \<Rightarrow> string" where
  "toUpperCase s = concat (map upperChar s)"

definition isBase32Char :: "char \<Rightarrow> bool" where
  "isBase32Char c =
     (let n = (of_char c :: nat) in (65 \<le> n \<and> n \<le> 90) \<or> (50 \<le> n \<and> n \<le> 55))"

text \<open>The position of a character in \<^verbatim>\<open>"ABCDEFGHIJKLMNOPQRSTUVWXYZ234567"\<close>.\<close>

definition base32Index :: "char \<Rightarrow> nat" where
  "base32Index c = (let n = (of_char c :: nat) in if 65 \<le> n \<and> n \<le> 90 then n - 65 else n - 24)"

text \<open>\<open>toBits w n\<close>: the \<open>w\<close> low binary digits of \<open>n\<close>, most significant first.\<close>

fun toBits :: "nat \<Rightarrow> nat \<Rightarrow> bool list" where
  "toBits 0 n = []"
| "toBits (Suc w) n = toBits w (n div 2) @ [odd n]"

fun fromBits :: "bool list \<Rightarrow> nat" where
  "fromBits [] = 0"
| "fromBits (b # bs) = (if b then 2 ^ length bs else 0) + fromBits bs"

fun bytesOfBits :: "nat \<Rightarrow> bool list \<Rightarrow> byte list" where
  "bytesOfBits 0 bits = []"
| "bytesOfBits (Suc k) bits = of_nat (fromBits (take 8 bits)) # bytesOfBits k (drop 8 bits)"

definition decodeBase32 :: "string \<Rightarrow> byte list" where
  "decodeBase32 secret =
     (let secretUpper = filter isBase32Char (toUpperCase secret);
          bits = concat (map (\<lambda>c. toBits 5 (base32Index c)) secretUpper)
      in bytesOfBits (length bits div 8) bits)"

text \<open>
  Reading a byte of the digest; outside the digest the language yields a value that
  the bit operations treat as zero.
\<close>

definition byteAt :: "byte list \<Rightarrow> nat \<Rightarrow> byte" where
  "byteAt hash i = (if i < length hash then hash ! i else 0)"

definition lastByte :: "byte list \<Rightarrow> byte" where
  "lastByte hash = (if hash = [] then 0 else last hash)"

definition truncateHash :: "byte list \<Rightarrow> 32 word" where
  "truncateHash hash =
     (let offset = unat (lastByte hash AND 0x0f)
      in push_bit 24 (ucast (byteAt hash offset AND 0x7f))
         OR push_bit 16 (ucast (byteAt hash (offset + 1) AND 0xff))
         OR push_bit 8 (ucast (byteAt hash (offset + 2) AND 0xff))
         OR ucast (byteAt hash (offset + 3) AND 0xff))"

definition digitChar :: "nat \<Rightarrow> char" where
  "digitChar d = char_of (48 + d)"

function natToString :: "nat \<Rightarrow> string" where
  "natToString n = (if n < 10 then [digitChar n] else natToString (n div 10) @ [digitChar (n mod 10)])"
  by pat_completeness auto
termination
  by (relation "measure id") auto

definition padStart :: "nat \<Rightarrow> char \<Rightarrow> string \<Rightarrow> string" where
  "padStart n c s = replicate (n - length s) c @ s"

definition generateTotp :: "(byte list \<Rightarrow> byte list \<Rightarrow> byte list) \<Rightarrow> string \<Rightarrow> int \<Rightarrow> string" where
  "generateTotp hmac secret time =
     (let counter = totpCounter time;
          buffer = counterBuffer counter;
          secretBytes = decodeBase32 secret;
          hash = hmac secretBytes buffer;
          code = truncateHash hash
      in padStart 6 (CHR ''0'') (natToString (unat code mod 1000000)))"

text \<open>
  The code of one time step: what \<open>generateTotp\<close> computes from the counter on.
\<close>

definition totpCode :: "(byte list \<Rightarrow> byte list \<Rightarrow> byte list) \<Rightarrow> string \<Rightarrow> int \<Rightarrow> string" where
  "totpCode hmac secret counter =
     padStart 6 (CHR ''0'')
       (natToString (unat (truncateHash (hmac (decodeBase32 secret) (counterBuffer counter))) mod 1000000))"

text \<open>\<open>verifyTotp\<close> at the clock reading \<open>now\<close>; the source's default for \<open>window\<close> is 1.\<close>

definition verifyTotp ::
  "(byte list \<Rightarrow> byte list \<Rightarrow> byte list) \<Rightarrow> int \<Rightarrow> string \<Rightarrow> string \<Rightarrow> int \<Rightarrow> bool" where
  "verifyTotp hmac now secret token window =
     list_ex (\<lambda>i. generateTotp hmac secret (now + i * 30 * 1000) = token) [- window .. window]"

section \<open>The tiered vault backend (src/secrets/backends/ganesh.ts, class GaneshBackend)\<close>

record SecretGroup =
  groupId :: string
  groupName :: string
  tier :: int
  secrets :: "string list"

record VaultManifest =
  manifestVersion :: int
  groups :: "SecretGroup list"
  defaultTier :: int

record TelegramMfaConfig =
  botToken :: string
  chatId :: string
  totpSecret :: string
  timeoutMs :: int

text \<open>
  A file of the vault directory: missing, present but not usable (reading it or parsing
  its JSON throws), or present with the content the code reads from it.
\<close>

datatype 'a vfile = Missing | Unreadable | Content 'a

record MfaConfigJson =
  jsonBotToken :: "string option"
  jsonChatId :: "string option"
  jsonTimeoutMs :: "int option"

text \<open>
  The vault directory and the tools the backend shells out to.  \<open>secretsAge\<close> is what
  decrypting \<^verbatim>\<open>secrets.age\<close> with the identity and parsing the output gives (\<open>None\<close> when
  either step throws); \<open>keygen\<close> derives the public key (\<open>None\<close> when the command
  fails); \<open>encryptOk\<close> and \<open>manifestWritable\<close> say whether writing the blob and the
  manifest succeeds.
\<close>

record vault =
  identityKey :: "string option"
  keygen :: "string \<Rightarrow> string option"
  manifestJson :: "VaultManifest vfile"
  secretsAge :: "(string \<rightharpoonup> string) option"
  encryptOk :: bool
  manifestWritable :: bool
  mfaConfigJson :: "MfaConfigJson vfile"
  totpKey :: "string vfile"
  envMfaChatId :: "string option"

text \<open>
  The approval exchange over the chat transport.  Every request that
  \<open>sendTelegramApprovalRequest\<close> issues is logged in \<open>sent\<close>; the transport and the
  operator answer the \<open>n\<close>-th request with \<open>reply n\<close>: the request could not be sent,
  or the poll loop ended with an approval, a denial or a time-out.
\<close>

datatype mfa_reply = SendFailed | Approved | Denied | TimedOut

record mfa_request =
  reqSecretId :: string
  reqGroupName :: string
  reqConfig :: TelegramMfaConfig

record telegram =
  sent :: "mfa_request list"
  reply :: "nat \<Rightarrow> mfa_request \<Rightarrow> mfa_reply"

record GaneshBackend =
  unlocked :: bool
  secretKey :: "string option"
  publicKey :: "string option"
  gSecretsCache :: "string \<rightharpoonup> string"
  manifest :: "VaultManifest option"

definition newGaneshBackend :: GaneshBackend where
  "newGaneshBackend =
     \<lparr>unlocked = False, secretKey = None, publicKey = None, gSecretsCache = Map.empty,
      manifest = None\<rparr>"

fun tierOfGroups :: "SecretGroup list \<Rightarrow> string \<Rightarrow> int option" where
  "tierOfGroups [] secretId = None"
| "tierOfGroups (g # gs) secretId =
     (if secretId \<in> set (secrets g) then Some (tier g) else tierOfGroups gs secretId)"

definition getSecretTier :: "GaneshBackend \<Rightarrow> string \<Rightarrow> int" where
  "getSecretTier b secretId =
     (case manifest b of
        None \<Rightarrow> 1
      | Some m \<Rightarrow>
          (case tierOfGroups (groups m) secretId of Some t \<Rightarrow> t | None \<Rightarrow> defaultTier m))"

fun nameOfGroups :: "SecretGroup list \<Rightarrow> string \<Rightarrow> string option" where
  "nameOfGroups [] secretId = None"
| "nameOfGroups (g # gs) secretId =
     (if secretId \<in> set (secrets g) then Some (groupName g) else nameOfGroups gs secretId)"

definition getSecretGroup :: "GaneshBackend \<Rightarrow> string \<Rightarrow> string" where
  "getSecretGroup b secretId =
     (case manifest b of
        None \<Rightarrow> ''default''
      | Some m \<Rightarrow>
          (case nameOfGroups (groups m) secretId of Some n \<Rightarrow> n | None \<Rightarrow> ''default''))"

definition orElse :: "string option \<Rightarrow> string \<Rightarrow> string" where
  "orElse v d = (if truthy v then the v else d)"

definition timeoutOrDefault :: "int option \<Rightarrow> int" where
  "timeoutOrDefault t = (case t of None \<Rightarrow> 60000 | Some n \<Rightarrow> if n = 0 then 60000 else n)"

text \<open>
  \<open>getMfaConfig\<close>.  Without \<^verbatim>\<open>mfa-config.json\<close> the key file is read outside any
  \<open>try\<close>, so a key file that exists and cannot be read makes the call throw (\<open>Inl\<close>).
\<close>

definition getMfaConfig :: "vault \<Rightarrow> GaneshBackend \<Rightarrow> string + TelegramMfaConfig option" where
  "getMfaConfig v b =
     (case mfaConfigJson v of
        Missing \<Rightarrow>
          (let token = gSecretsCache b ''openclaw/telegram-bot-token''
           in if truthy token \<and> totpKey v \<noteq> Missing
              then (case totpKey v of
                      Content k \<Rightarrow>
                        Inr (Some \<lparr>botToken = the token,
                                   chatId = orElse (envMfaChatId v) ''8036631576'',
                                   totpSecret = trim k, timeoutMs = 60000\<rparr>)
                    | _ \<Rightarrow> Inl ''cannot read totp.key'')
              else Inr None)
      | Unreadable \<Rightarrow> Inr None
      | Content config \<Rightarrow>
          (case totpKey v of
             Unreadable \<Rightarrow> Inr None
           | tk \<Rightarrow>
               Inr (Some \<lparr>botToken = orElse (jsonBotToken config)
                                     (orElse (gSecretsCache b ''openclaw/telegram-bot-token'') []),
                          chatId = orElse (jsonChatId config) ''8036631576'',
                          totpSecret = (case tk of Content k \<Rightarrow> trim k | _ \<Rightarrow> []),
                          timeoutMs = timeoutOrDefault (jsonTimeoutMs config)\<rparr>)))"

text \<open>\<open>loadSecrets\<close>: \<open>None\<close> when it throws, else the backend with the decrypted map.\<close>

definition loadSecrets :: "vault \<Rightarrow> GaneshBackend \<Rightarrow> GaneshBackend option" where
  "loadSecrets v b =
     (if \<not> truthy (secretKey b) then None
      else case secretsAge v of
             None \<Rightarrow> None
           | Some store \<Rightarrow> Some (b\<lparr>gSecretsCache := store\<rparr>))"

text \<open>
  \<open>unlock\<close>.  The fields are assigned as the steps succeed, so a failed unlock can
  leave the key material or the manifest set while \<open>unlocked\<close> stays false.
\<close>

definition unlock :: "vault \<Rightarrow> GaneshBackend \<Rightarrow> bool \<times> GaneshBackend" where
  "unlock v b =
     (if unlocked b then (True, b)
      else case identityKey v of
             None \<Rightarrow> (False, b)
           | Some k \<Rightarrow>
               (let b1 = b\<lparr>secretKey := Some (trim k)\<rparr>
                in case keygen v (trim k) of
                     None \<Rightarrow> (False, b1)
                   | Some stdout \<Rightarrow>
                       (let b2 = b1\<lparr>publicKey := Some (trim stdout)\<rparr>
                        in case manifestJson v of
                             Unreadable \<Rightarrow> (False, b2)
                           | mf \<Rightarrow>
                               (let b3 = (case mf of Content m \<Rightarrow> b2\<lparr>manifest := Some m\<rparr> | _ \<Rightarrow> b2)
                                in case loadSecrets v b3 of
                                     None \<Rightarrow> (False, b3)
                                   | Some b4 \<Rightarrow> (True, b4\<lparr>unlocked := True\<rparr>)))))"

definition lock :: "GaneshBackend \<Rightarrow> GaneshBackend" where
  "lock b = b\<lparr>unlocked := False, secretKey := None, publicKey := None,
              gSecretsCache := Map.empty, manifest := None\<rparr>"

text \<open>
  \<open>resolveTier3\<close>: the result is \<open>Inl\<close> when the call throws, else the value or \<open>null\<close>.
  The backend itself is not written to.
\<close>

definition resolveTier3 ::
  "vault \<Rightarrow> GaneshBackend \<Rightarrow> string \<Rightarrow> telegram \<Rightarrow> (string + string option) \<times> telegram" where
  "resolveTier3 v b secretPath tg =
     (case getMfaConfig v b of
        Inl e \<Rightarrow> (Inl e, tg)
      | Inr None \<Rightarrow> (Inr None, tg)
      | Inr (Some mfaConfig) \<Rightarrow>
          (let request = \<lparr>reqSecretId = secretPath, reqGroupName = getSecretGroup b secretPath,
                          reqConfig = mfaConfig\<rparr>;
               answer = reply tg (length (sent tg)) request;
               tg' = tg\<lparr>sent := sent tg @ [request]\<rparr>
           in case answer of
                Approved \<Rightarrow> (Inr (gSecretsCache b secretPath), tg')
              | _ \<Rightarrow> (Inr None, tg')))"

definition resolve ::
  "vault \<Rightarrow> string \<Rightarrow> GaneshBackend \<times> telegram
     \<Rightarrow> (string + string option) \<times> GaneshBackend \<times> telegram" where
  "resolve v secretPath st =
     (let (b, tg) = st;
          (okU, b') = (if \<not> unlocked b then unlock v b else (True, b))
      in if \<not> okU then (Inr None, b', tg)
         else (let normalizedPath = secretPath;
                   t = getSecretTier b' normalizedPath
               in if t < 3 then (Inr (gSecretsCache b' normalizedPath), b', tg)
                  else (let (r, tg') = resolveTier3 v b' normalizedPath tg in (r, b', tg'))))"

text \<open>\<open>saveSecrets\<close>: \<open>None\<close> when it throws, else the vault with the rewritten blob.\<close>

definition saveSecrets :: "vault \<Rightarrow> GaneshBackend \<Rightarrow> vault option" where
  "saveSecrets v b =
     (if \<not> truthy (secretKey b) \<or> \<not> truthy (publicKey b) then None
      else if \<not> encryptOk v then None
      else Some (v\<lparr>secretsAge := Some (gSecretsCache b)\<rparr>))"

text \<open>
  The group part of \<open>updateManifest\<close>: the first group whose id is \<^verbatim>\<open>"default"\<close> gets
  the secret appended unless it lists it already; when there is no such group, one is
  appended to the groups.
\<close>

fun addToDefault :: "string \<Rightarrow> SecretGroup list \<Rightarrow> SecretGroup list option" where
  "addToDefault secretId [] = None"
| "addToDefault secretId (g # gs) =
     (if groupId g = ''default''
      then Some ((if secretId \<in> set (secrets g) then g
                  else g\<lparr>secrets := secrets g @ [secretId]\<rparr>) # gs)
      else map_option ((#) g) (addToDefault secretId gs))"

definition trackSecret :: "string \<Rightarrow> VaultManifest \<Rightarrow> VaultManifest" where
  "trackSecret secretId m =
     (case addToDefault secretId (groups m) of
        Some gs \<Rightarrow> m\<lparr>groups := gs\<rparr>
      | None \<Rightarrow>
          m\<lparr>groups := groups m @
               [\<lparr>groupId = ''default'', groupName = ''Default'', tier = 1, secrets = [secretId]\<rparr>]\<rparr>)"

definition updateManifest :: "vault \<Rightarrow> string \<Rightarrow> vault option" where
  "updateManifest v secretId =
     (case manifestJson v of
        Content m \<Rightarrow>
          if manifestWritable v then Some (v\<lparr>manifestJson := Content (trackSecret secretId m)\<rparr>)
          else None
      | _ \<Rightarrow> None)"

definition store ::
  "string \<Rightarrow> string \<Rightarrow> vault \<times> GaneshBackend \<Rightarrow> bool \<times> vault \<times> GaneshBackend" where
  "store secretPath val st =
     (let (v, b) = st;
          (okU, b') = (if \<not> unlocked b then unlock v b else (True, b))
      in if \<not> okU then (False, v, b')
         else (let b1 = b'\<lparr>gSecretsCache := (gSecretsCache b')(secretPath \<mapsto> val)\<rparr>
               in case saveSecrets v b1 of
                    None \<Rightarrow> (False, v, b1)
                  | Some v1 \<Rightarrow>
                      (case updateManifest v1 secretPath of
                         None \<Rightarrow> (False, v1, b1)
                       | Some v2 \<Rightarrow> (True, v2, b1))))"

text \<open>In how many groups of a manifest a path is listed.\<close>

definition membershipCount :: "string \<Rightarrow> SecretGroup list \<Rightarrow> nat" where
  "membershipCount secretId gs = length (filter (\<lambda>g. secretId \<in> set (secrets g)) gs)"

section \<open>The command policy gate (src/infra/ganesh-policy-gate.ts)\<close>

datatype PolicyGateDecision = Allow | Deny | Ask

record PolicyGateResult =
  decision :: PolicyGateDecision
  reason :: string
  matchedRule :: "string option"
  evaluatedAt :: int

text \<open>
  The values a condition compares: what the JSON of the policy file can hold in
  \<open>value\<close> (a string, a number, a list of strings) and what a field of the evaluation
  context can be (a string or \<open>undefined\<close>).
\<close>

datatype jsval = JUndefined | JString string | JNumber real | JStrings "string list"

datatype condition_op = OpEq | OpNeq | OpContains | OpMatches | OpIn | OpGt | OpLt | OpOther string

record PolicyCondition =
  condField :: string
  op :: condition_op
  condValue :: jsval

record PolicyRule =
  ruleId :: string
  description :: "string option"
  subject :: string
  conditions :: "PolicyCondition list"
  action :: string
  priority :: "real option"
  enabled :: "bool option"

record PolicyConfig =
  policyVersion :: int
  defaultAction :: "string option"
  rules :: "PolicyRule list option"

record AuditEntry =
  timestamp :: int
  auditCommand :: string
  auditDecision :: PolicyGateDecision
  auditReason :: string
  auditMatchedRule :: "string option"
  auditAgentId :: "string option"
  auditSessionKey :: "string option"
  auditHost :: "string option"

record opts =
  agentId :: "string option"
  sessionKey :: "string option"
  optHost :: "string option"
  cwd :: "string option"

text \<open>
  The policy file as \<open>loadPolicy\<close> meets it: absent; present with a \<open>stat\<close> that
  throws; or present with a modification time and a content that parses (\<open>Some\<close>) or
  makes reading or parsing throw (\<open>None\<close>).
\<close>

datatype policy_file = PolicyAbsent | PolicyStatFails | PolicyPresent int "PolicyConfig option"

text \<open>
  The gate's outside world.  \<open>regexTest pattern s\<close> is \<^verbatim>\<open>new RegExp(pattern).test(s)\<close>,
  \<open>None\<close> when the pattern does not compile.  \<open>auditDirOk\<close> says whether the audit
  directory exists or can be made, \<open>appendOk\<close> whether appending to the day's log
  succeeds.
\<close>

record gate_env =
  GANESH_POLICY_GATE :: "string option"
  policyFile :: policy_file
  regexTest :: "string \<Rightarrow> string \<Rightarrow> bool option"
  auditDirOk :: bool
  appendOk :: bool

text \<open>The module's variables, and the audit log on disk.\<close>

record gate_state =
  cachedPolicy :: "PolicyConfig option"
  cachedPolicyMtime :: int
  lastPolicyCheck :: int
  auditDirChecked :: bool
  auditLog :: "AuditEntry list"

definition POLICY_CACHE_TTL_MS :: int where
  "POLICY_CACHE_TTL_MS = 30000"

definition toLowerCase :: "string \<Rightarrow> string" where
  "toLowerCase s =
     map (\<lambda>c. let n = (of_char c :: nat) in if 65 \<le> n \<and> n \<le> 90 then char_of (n + 32) else c) s"

definition policyFileExists :: "gate_env \<Rightarrow> bool" where
  "policyFileExists e = (policyFile e \<noteq> PolicyAbsent)"

definition isPolicyGateEnabled :: "gate_env \<Rightarrow> bool" where
  "isPolicyGateEnabled e =
     (case map_option toLowerCase (GANESH_POLICY_GATE e) of
        None \<Rightarrow> policyFileExists e
      | Some envVal \<Rightarrow>
          if envVal = ''0'' \<or> envVal = ''false'' \<or> envVal = ''off'' then False
          else if envVal = ''1'' \<or> envVal = ''true'' \<or> envVal = ''on'' then True
          else policyFileExists e)"

text \<open>\<open>loadPolicy\<close> at the clock reading \<open>now\<close>: the policy or \<open>null\<close>, and the module's variables.\<close>

definition loadPolicy :: "gate_env \<Rightarrow> int \<Rightarrow> gate_state \<Rightarrow> PolicyConfig option \<times> gate_state" where
  "loadPolicy e now s =
     (if cachedPolicy s \<noteq> None \<and> now - lastPolicyCheck s < POLICY_CACHE_TTL_MS
      then (cachedPolicy s, s)
      else (let s1 = s\<lparr>lastPolicyCheck := now\<rparr>
            in case policyFile e of
                 PolicyAbsent \<Rightarrow> (None, s1)
               | PolicyStatFails \<Rightarrow> (None, s1)
               | PolicyPresent mtimeMs content \<Rightarrow>
                   if cachedPolicy s1 \<noteq> None \<and> mtimeMs = cachedPolicyMtime s1
                   then (cachedPolicy s1, s1)
                   else (case content of
                           None \<Rightarrow> (None, s1)
                         | Some p \<Rightarrow> (Some p, s1\<lparr>cachedPolicy := Some p, cachedPolicyMtime := mtimeMs\<rparr>))))"

subsection \<open>Condition evaluation\<close>

text \<open>\<^verbatim>\<open>fieldPath.split(".")\<close>.\<close>

fun splitDots :: "string \<Rightarrow> string list" where
  "splitDots [] = [[]]"
| "splitDots (c # cs) =
     (if c = CHR ''.'' then [] # splitDots cs
      else (case splitDots cs of p # ps \<Rightarrow> (c # p) # ps | [] \<Rightarrow> [[c]]))"

record details =
  dCommand :: string
  dBaseCommand :: string
  dName :: string
  dHost :: "string option"
  dCwd :: "string option"
  dAgentId :: "string option"

definition ofOptional :: "string option \<Rightarrow> jsval" where
  "ofOptional v = (case v of None \<Rightarrow> JUndefined | Some s \<Rightarrow> JString s)"

text \<open>
  A property of the context object.  The object holds the six keys below; members it
  inherits from the language's root prototype are not modelled, so any other key is
  \<open>undefined\<close>.
\<close>

definition detailsProp :: "details \<Rightarrow> string \<Rightarrow> jsval" where
  "detailsProp d key =
     (if key = ''command'' then JString (dCommand d)
      else if key = ''baseCommand'' then JString (dBaseCommand d)
      else if key = ''name'' then JString (dName d)
      else if key = ''host'' then ofOptional (dHost d)
      else if key = ''cwd'' then ofOptional (dCwd d)
      else if key = ''agentId'' then ofOptional (dAgentId d)
      else JUndefined)"

text \<open>
  \<open>getNestedValue\<close>: every value of the context is a string or \<open>undefined\<close>, never an
  object, so a path of more than one part runs into the \<open>typeof\<close> test and yields
  \<open>undefined\<close>.
\<close>

definition getNestedValue :: "details \<Rightarrow> string \<Rightarrow> jsval" where
  "getNestedValue d fieldPath =
     (case splitDots fieldPath of
        [part] \<Rightarrow> detailsProp d part
      | _ \<Rightarrow> JUndefined)"

text \<open>Strict equality; two lists are never the same object.\<close>

definition strictEq :: "jsval \<Rightarrow> jsval \<Rightarrow> bool" where
  "strictEq a b =
     (case (a, b) of
        (JString x, JString y) \<Rightarrow> x = y
      | (JNumber x, JNumber y) \<Rightarrow> x = y
      | (JUndefined, JUndefined) \<Rightarrow> True
      | _ \<Rightarrow> False)"

text \<open>\<^verbatim>\<open>s.includes(sub)\<close> on strings.\<close>

fun includesStr :: "string \<Rightarrow> string \<Rightarrow> bool" where
  "includesStr [] sub = (sub = [])"
| "includesStr (c # cs) sub = (stripPrefix sub (c # cs) \<noteq> None \<or> includesStr cs sub)"

definition evaluateCondition :: "gate_env \<Rightarrow> PolicyCondition \<Rightarrow> details \<Rightarrow> bool" where
  "evaluateCondition e condition d =
     (let v = getNestedValue d (condField condition)
      in case op condition of
           OpEq \<Rightarrow> strictEq v (condValue condition)
         | OpNeq \<Rightarrow> \<not> strictEq v (condValue condition)
         | OpContains \<Rightarrow>
             (case (v, condValue condition) of
                (JString s, JString sub) \<Rightarrow> includesStr s sub
              | (JStrings xs, JString x) \<Rightarrow> x \<in> set xs
              | _ \<Rightarrow> False)
         | OpMatches \<Rightarrow>
             (case (v, condValue condition) of
                (JString s, JString pattern) \<Rightarrow>
                  (case regexTest e pattern s of Some r \<Rightarrow> r | None \<Rightarrow> False)
              | _ \<Rightarrow> False)
         | OpIn \<Rightarrow>
             (case (condValue condition, v) of
                (JStrings xs, JString x) \<Rightarrow> x \<in> set xs
              | _ \<Rightarrow> False)
         | OpGt \<Rightarrow>
             (case (v, condValue condition) of (JNumber a, JNumber b) \<Rightarrow> a > b | _ \<Rightarrow> False)
         | OpLt \<Rightarrow>
             (case (v, condValue condition) of (JNumber a, JNumber b) \<Rightarrow> a < b | _ \<Rightarrow> False)
         | OpOther _ \<Rightarrow> False)"

subsection \<open>Helpers\<close>

definition normalizeAction :: "string \<Rightarrow> PolicyGateDecision" where
  "normalizeAction a =
     (let lower = toLowerCase a
      in if lower = ''allow'' then Allow else if lower = ''deny'' then Deny else Ask)"

text \<open>One leading assignment \<^verbatim>\<open>\w+=\S+\s+\<close>: the rest of the string after it.\<close>

definition envAssignment :: "string \<Rightarrow> string option" where
  "envAssignment s =
     (let name = takeWhile isWordChar s; r1 = dropWhile isWordChar s
      in case r1 of
           [] \<Rightarrow> None
         | c # r2 \<Rightarrow>
             (let val = takeWhile (\<lambda>x. \<not> isSpace x) r2; r3 = dropWhile (\<lambda>x. \<not> isSpace x) r2
              in if name \<noteq> [] \<and> c = CHR ''='' \<and> val \<noteq> [] \<and> takeWhile isSpace r3 \<noteq> []
                 then Some (dropWhile isSpace r3) else None))"

lemma envAssignment_shorter: "envAssignment s = Some r \<Longrightarrow> length r < length s"
proof -
  assume a: "envAssignment s = Some r"
  obtain c r2 where r1: "dropWhile isWordChar s = c # r2"
    using a by (cases "dropWhile isWordChar s") (auto simp: envAssignment_def)
  have r: "r = dropWhile isSpace (dropWhile (\<lambda>x. \<not> isSpace x) r2)"
    using a r1 by (auto simp: envAssignment_def Let_def split: if_splits)
  have "length r \<le> length r2"
    unfolding r by (meson length_dropWhile_le order_trans)
  moreover have "length (c # r2) \<le> length s"
    using r1 length_dropWhile_le [of isWordChar s] by simp
  ultimately show ?thesis by simp
qed

text \<open>\<^verbatim>\<open>replace(/^(\w+=\S+\s+)+/, "")\<close>: all leading assignments go.\<close>

function stripEnvAssignments :: "string \<Rightarrow> string" where
  "stripEnvAssignments s =
     (case envAssignment s of None \<Rightarrow> s | Some r \<Rightarrow> stripEnvAssignments r)"
  by pat_completeness auto
termination
  by (relation "measure length") (auto simp: envAssignment_shorter)

text \<open>One flag of \<open>sudo\<close>, \<^verbatim>\<open>-\S+\s+\<close>: the rest of the string after it.\<close>

definition sudoFlag :: "string \<Rightarrow> string option" where
  "sudoFlag s =
     (case s of
        [] \<Rightarrow> None
      | c # r1 \<Rightarrow>
          (let r2 = dropWhile (\<lambda>x. \<not> isSpace x) r1
           in if c = CHR ''-'' \<and> takeWhile (\<lambda>x. \<not> isSpace x) r1 \<noteq> [] \<and> takeWhile isSpace r2 \<noteq> []
              then Some (dropWhile isSpace r2) else None))"

lemma sudoFlag_shorter: "sudoFlag s = Some r \<Longrightarrow> length r < length s"
proof -
  assume a: "sudoFlag s = Some r"
  obtain c r1 where s: "s = c # r1"
    using a by (cases s) (auto simp: sudoFlag_def)
  have r: "r = dropWhile isSpace (dropWhile (\<lambda>x. \<not> isSpace x) r1)"
    using a s by (auto simp: sudoFlag_def Let_def split: if_splits)
  have "length r \<le> length r1"
    unfolding r by (meson length_dropWhile_le order_trans)
  then show ?thesis using s by simp
qed

function stripSudoFlags :: "string \<Rightarrow> string" where
  "stripSudoFlags s = (case sudoFlag s of None \<Rightarrow> s | Some r \<Rightarrow> stripSudoFlags r)"
  by pat_completeness auto
termination
  by (relation "measure length") (auto simp: sudoFlag_shorter)

text \<open>\<^verbatim>\<open>replace(/^sudo\s+(-\S+\s+)*/, "")\<close>.\<close>

definition stripSudo :: "string \<Rightarrow> string" where
  "stripSudo s =
     (case stripPrefix ''sudo'' s of
        None \<Rightarrow> s
      | Some r \<Rightarrow> if takeWhile isSpace r \<noteq> [] then stripSudoFlags (dropWhile isSpace r) else s)"

text \<open>\<open>path.basename\<close> of the POSIX flavour: trailing slashes go, the last component stays.\<close>

definition basename :: "string \<Rightarrow> string" where
  "basename p =
     rev (takeWhile (\<lambda>c. c \<noteq> CHR ''/'') (dropWhile (\<lambda>c. c = CHR ''/'') (rev p)))"

definition extractBaseCommand :: "string \<Rightarrow> string" where
  "extractBaseCommand command =
     (let trimmed = trim command;
          withoutEnv = stripEnvAssignments trimmed;
          withoutSudo = stripSudo withoutEnv;
          word = takeWhile (\<lambda>x. \<not> isSpace x) withoutSudo
      in if word = [] then trimmed else basename word)"

subsection \<open>Audit logging\<close>

definition ensureAuditDir :: "gate_env \<Rightarrow> gate_state \<Rightarrow> bool \<times> gate_state" where
  "ensureAuditDir e s =
     (if auditDirChecked s then (True, s)
      else if auditDirOk e then (True, s\<lparr>auditDirChecked := True\<rparr>)
      else (False, s))"

definition writeAudit :: "gate_env \<Rightarrow> AuditEntry \<Rightarrow> gate_state \<Rightarrow> gate_state" where
  "writeAudit e entry s =
     (let (okDir, s1) = ensureAuditDir e s
      in if \<not> okDir then s1
         else if appendOk e then s1\<lparr>auditLog := auditLog s1 @ [entry]\<rparr>
         else s1)"

subsection \<open>Evaluating a command\<close>

definition rulePriority :: "PolicyRule \<Rightarrow> real" where
  "rulePriority r = (case priority r of None \<Rightarrow> 0 | Some p \<Rightarrow> p)"

text \<open>
  The rules for the subject \<^verbatim>\<open>"command"\<close> that are not disabled, in descending priority:
  \<open>toSorted\<close> is a stable sort, as is \<open>sort_key\<close>.
\<close>

definition commandRules :: "PolicyConfig \<Rightarrow> PolicyRule list" where
  "commandRules policy =
     sort_key (\<lambda>r. - rulePriority r)
       (filter (\<lambda>r. subject r = ''command'' \<and> enabled r \<noteq> Some False)
          (case rules policy of None \<Rightarrow> [] | Some rs \<Rightarrow> rs))"

definition allMatch :: "gate_env \<Rightarrow> details \<Rightarrow> PolicyRule \<Rightarrow> bool" where
  "allMatch e d rule = list_all (\<lambda>c. evaluateCondition e c d) (conditions rule)"

text \<open>The context object that the conditions are evaluated on.\<close>

definition buildDetails :: "string \<Rightarrow> opts \<Rightarrow> details" where
  "buildDetails command os =
     (let baseCommand = extractBaseCommand command
      in \<lparr>dCommand = command, dBaseCommand = baseCommand, dName = baseCommand,
          dHost = optHost os, dCwd = cwd os, dAgentId = agentId os\<rparr>)"

definition evaluateCommand ::
  "gate_env \<Rightarrow> int \<Rightarrow> string \<Rightarrow> opts \<Rightarrow> gate_state \<Rightarrow> PolicyGateResult \<times> gate_state" where
  "evaluateCommand e now command os s =
     (if \<not> isPolicyGateEnabled e
      then (\<lparr>decision = Allow, reason = ''Policy gate disabled'', matchedRule = None,
             evaluatedAt = now\<rparr>, s)
      else
        (let (policy, s1) = loadPolicy e now s
         in case policy of
              None \<Rightarrow>
                (\<lparr>decision = Allow, reason = ''No policy config found'', matchedRule = None,
                  evaluatedAt = now\<rparr>, s1)
            | Some p \<Rightarrow>
                (let d = buildDetails command os
                 in case find (allMatch e d) (commandRules p) of
                      Some rule \<Rightarrow>
                        (let act = normalizeAction (action rule);
                             why = (if truthy (description rule) then the (description rule)
                                    else ''Matched rule: '' @ ruleId rule)
                         in (\<lparr>decision = act, reason = why, matchedRule = Some (ruleId rule),
                              evaluatedAt = now\<rparr>,
                             writeAudit e
                               \<lparr>timestamp = now, auditCommand = command, auditDecision = act,
                                auditReason = why, auditMatchedRule = Some (ruleId rule),
                                auditAgentId = agentId os, auditSessionKey = sessionKey os,
                                auditHost = optHost os\<rparr> s1))
                    | None \<Rightarrow>
                        (let act = normalizeAction (orElse (defaultAction p) ''ask'');
                             why = ''No matching rule, using default policy''
                         in (\<lparr>decision = act, reason = why, matchedRule = None,
                              evaluatedAt = now\<rparr>,
                             writeAudit e
                               \<lparr>timestamp = now, auditCommand = command, auditDecision = act,
                                auditReason = why, auditMatchedRule = None,
                                auditAgentId = agentId os, auditSessionKey = sessionKey os,
                                auditHost = optHost os\<rparr> s1)))))"

text \<open>
  Notions the theorems on the gate are stated with: the rules as the policy declares
  them, a rule that counts for commands and whose conditions all hold, and the
  spelling of a decision as an action.
\<close>

definition ruleApplies :: "gate_env \<Rightarrow> details \<Rightarrow> PolicyRule \<Rightarrow> bool" where
  "ruleApplies e d r =
     (subject r = ''command'' \<and> enabled r \<noteq> Some False
      \<and> list_all (\<lambda>c. evaluateCondition e c d) (conditions r))"

definition declaredRules :: "PolicyConfig \<Rightarrow> PolicyRule list" where
  "declaredRules p = (case rules p of None \<Rightarrow> [] | Some rs \<Rightarrow> rs)"

definition decisionName :: "PolicyGateDecision \<Rightarrow> string" where
  "decisionName x = (case x of Allow \<Rightarrow> ''allow'' | Deny \<Rightarrow> ''deny'' | Ask \<Rightarrow> ''ask'')"

section \<open>Sample inputs\<close>

text \<open>Concrete hosts, vaults and policies on which the theorems below are instantiated.\<close>

definition demoHost :: host where
  "demoHost =
     \<lparr>envPasswordStoreDir = None, homedir = ''/home/op'', whichPass = True,
      pathExists = (\<lambda>p. True),
      exec = (\<lambda>cmd env. if cmd = passShowCommand ''openclaw/token''
                         then Inr (''  s3cret '' @ [CHR 0x0A] @ ''note'' @ [CHR 0x0A])
                         else Inl ''Error: x is not in the password store.'')\<rparr>"

definition demoManifest :: VaultManifest where
  "demoManifest =
     \<lparr>manifestVersion = 1,
      groups = [\<lparr>groupId = ''default'', groupName = ''Default'', tier = 1, secrets = []\<rparr>,
                \<lparr>groupId = ''prod'', groupName = ''Production'', tier = 3,
                 secrets = [''db/password'']\<rparr>],
      defaultTier = 1\<rparr>"

definition demoSecrets :: "string \<rightharpoonup> string" where
  "demoSecrets =
     [''db/password'' \<mapsto> ''hunter2'', ''test/api-key'' \<mapsto> ''sk-test-123'',
      ''openclaw/telegram-bot-token'' \<mapsto> ''123:abc'']"

definition demoVault :: vault where
  "demoVault =
     \<lparr>identityKey = Some ''AGE-SECRET-KEY-1X'', keygen = (\<lambda>k. Some ''age1pub''),
      manifestJson = Content demoManifest, secretsAge = Some demoSecrets,
      encryptOk = True, manifestWritable = True, mfaConfigJson = Missing,
      totpKey = Content ''JBSWY3DPEHPK3PXP'', envMfaChatId = None\<rparr>"

definition demoTelegram :: telegram where
  "demoTelegram = \<lparr>sent = [], reply = (\<lambda>n req. if n = 0 then Approved else Denied)\<rparr>"

definition demoUnlocked :: GaneshBackend where
  "demoUnlocked =
     \<lparr>unlocked = True, secretKey = Some ''AGE-SECRET-KEY-1X'', publicKey = Some ''age1pub'',
      gSecretsCache = demoSecrets, manifest = Some demoManifest\<rparr>"

definition demoManifestAfter :: VaultManifest where
  "demoManifestAfter =
     \<lparr>manifestVersion = 1,
      groups = [\<lparr>groupId = ''default'', groupName = ''Default'', tier = 1,
                 secrets = [''db/password'']\<rparr>,
                \<lparr>groupId = ''prod'', groupName = ''Production'', tier = 3,
                 secrets = [''db/password'']\<rparr>],
      defaultTier = 1\<rparr>"

definition demoRequest :: mfa_request where
  "demoRequest =
     \<lparr>reqSecretId = ''db/password'', reqGroupName = ''Production'',
      reqConfig = \<lparr>botToken = ''123:abc'', chatId = ''8036631576'',
                   totpSecret = ''JBSWY3DPEHPK3PXP'', timeoutMs = 60000\<rparr>\<rparr>"

definition demoVaultStored :: vault where
  "demoVaultStored =
     demoVault\<lparr>secretsAge := Some (demoSecrets(''db/password'' \<mapsto> ''new'')),
                manifestJson := Content demoManifestAfter\<rparr>"

definition demoReloaded :: GaneshBackend where
  "demoReloaded =
     \<lparr>unlocked = True, secretKey = Some ''AGE-SECRET-KEY-1X'', publicKey = Some ''age1pub'',
      gSecretsCache = demoSecrets(''db/password'' \<mapsto> ''new''),
      manifest = Some demoManifestAfter\<rparr>"

definition demoDenyAll :: telegram where
  "demoDenyAll = \<lparr>sent = [], reply = (\<lambda>n req. Denied)\<rparr>"

definition emptyResolver :: resolver_state where
  "emptyResolver = \<lparr>secretsCache = Map.empty, backendInstances = Map.empty, backendCalls = []\<rparr>"


definition demoHmac :: "byte list \<Rightarrow> byte list \<Rightarrow> byte list" where
  "demoHmac key message = message @ key @ message @ key"

definition noOpts :: opts where
  "noOpts = \<lparr>agentId = None, sessionKey = None, optHost = None, cwd = None\<rparr>"

definition emptyGate :: gate_state where
  "emptyGate =
     \<lparr>cachedPolicy = None, cachedPolicyMtime = 0, lastPolicyCheck = 0, auditDirChecked = False,
      auditLog = []\<rparr>"

definition gitRule :: "string \<Rightarrow> string \<Rightarrow> real \<Rightarrow> bool \<Rightarrow> PolicyRule" where
  "gitRule name act prio en =
     \<lparr>ruleId = name, description = None, subject = ''command'',
      conditions = [\<lparr>condField = ''baseCommand'', op = OpEq, condValue = JString ''git''\<rparr>],
      action = act, priority = Some prio, enabled = Some en\<rparr>"

definition demoPolicy :: PolicyConfig where
  "demoPolicy =
     \<lparr>policyVersion = 1, defaultAction = Some ''deny'',
      rules = Some [gitRule ''low-priority-deny'' ''deny'' 1 True,
                    gitRule ''disabled-deny'' ''deny'' 100 False,
                    gitRule ''high-priority-allow'' ''allow'' 10 True]\<rparr>"

definition demoGateEnv :: gate_env where
  "demoGateEnv =
     \<lparr>GANESH_POLICY_GATE = Some ''on'', policyFile = PolicyPresent 5 (Some demoPolicy),
      regexTest = (\<lambda>pattern s. None), auditDirOk = True, appendOk = True\<rparr>"

definition absentGateEnv :: gate_env where
  "absentGateEnv =
     \<lparr>GANESH_POLICY_GATE = Some ''on'', policyFile = PolicyAbsent,
      regexTest = (\<lambda>pattern s. None), auditDirOk = True, appendOk = True\<rparr>"

section \<open>Facts about the string primitives\<close>

lemma firstLine_decomp:
  "CHR 0x0A \<notin> set (firstLine out)
   \<and> (out = firstLine out \<or> (\<exists>rest. out = firstLine out @ [CHR 0x0A] @ rest))"
proof -
  have a: "CHR 0x0A \<notin> set (firstLine out)"
    unfolding firstLine_def using set_takeWhileD by fastforce
  have b: "out = firstLine out @ dropWhile (\<lambda>c. c \<noteq> CHR 0x0A) out"
    unfolding firstLine_def by simp
  show ?thesis
  proof (cases "dropWhile (\<lambda>c. c \<noteq> CHR 0x0A) out")
    case Nil
    with a b show ?thesis by simp
  next
    case (Cons c rest)
    then have "c = CHR 0x0A" using hd_dropWhile [of "\<lambda>c. c \<noteq> CHR 0x0A" out] by auto
    with a b Cons show ?thesis by auto
  qed
qed

lemma trim_middle: "dropWhile isSpace s = trim s @ rev (takeWhile isSpace (rev (dropWhile isSpace s)))"
proof -
  let ?m = "dropWhile isSpace s"
  have "rev ?m = takeWhile isSpace (rev ?m) @ dropWhile isSpace (rev ?m)" by simp
  then have "rev (rev ?m) = rev (takeWhile isSpace (rev ?m) @ dropWhile isSpace (rev ?m))" by simp
  then show ?thesis unfolding trim_def by (simp only: rev_rev_ident rev_append)
qed

lemma trim_decomp:
  "\<exists>l r. s = l @ trim s @ r \<and> list_all isSpace l \<and> list_all isSpace r"
proof -
  let ?l = "takeWhile isSpace s"
  let ?r = "rev (takeWhile isSpace (rev (dropWhile isSpace s)))"
  have s: "s = ?l @ dropWhile isSpace s" by simp
  have l: "list_all isSpace ?l" by (auto simp: list_all_iff dest: set_takeWhileD)
  have r: "list_all isSpace ?r" by (auto simp: list_all_iff dest: set_takeWhileD)
  from s trim_middle [of s] have "s = ?l @ trim s @ ?r" by metis
  with l r show ?thesis by blast
qed

lemma trim_ends:
  assumes "trim s \<noteq> []"
  shows "\<not> isSpace (hd (trim s)) \<and> \<not> isSpace (last (trim s))"
proof -
  let ?m = "dropWhile isSpace s"
  let ?d = "dropWhile isSpace (rev ?m)"
  have t: "trim s = rev ?d" by (simp add: trim_def)
  have d: "?d \<noteq> []" using assms t by simp
  then have "\<not> isSpace (hd ?d)" by (rule hd_dropWhile)
  then have last: "\<not> isSpace (last (trim s))" using d t by (simp add: last_rev)
  have mne: "?m \<noteq> []" using assms trim_middle [of s] by (metis Nil_is_append_conv)
  then have "\<not> isSpace (hd ?m)" by (rule hd_dropWhile)
  moreover have "hd ?m = hd (trim s)" using trim_middle [of s] assms by (metis hd_append2)
  ultimately show ?thesis using last by simp
qed

section \<open>The reference parser\<close>

text \<open>
  What the parser does recover: a reference with one of the five prefixes it knows, a
  non-empty path without line terminators and a field of word characters comes apart
  into backend, path and field; without a \<open>#\<close> there is no field; without a known
  prefix the default backend is used.
\<close>

lemma stripPrefix_append: "stripPrefix xs (xs @ ys) = Some ys"
  by (induction xs) simp_all

lemma wordChar_not_terminator: "isWordChar c \<Longrightarrow> \<not> isLineTerminator c"
  by (auto simp: isWordChar_def isLineTerminator_def Let_def)

lemma hash_not_wordChar: "\<not> isWordChar (CHR ''#'')" "\<not> isLineTerminator (CHR ''#'')"
  by (simp_all add: isWordChar_def isLineTerminator_def)

lemma prefixMatch_known:
  assumes "(name, b) \<in> set prefixNames" and "r \<noteq> []" and "\<not> list_ex isLineTerminator r"
  shows "prefixMatch (name @ '':'' @ r) = Some (b, r)"
  using assms
  by (auto simp: prefixMatch_def prefixNames_def)

lemma fieldMatch_field:
  assumes "p \<noteq> []" and "\<not> list_ex isLineTerminator p" and "f \<noteq> []" and "list_all isWordChar f"
  shows "fieldMatch (p @ ''#'' @ f) = Some (p, f)"
proof -
  have w: "\<And>x. x \<in> set (rev f) \<Longrightarrow> isWordChar x"
    using assms(4) by (simp add: list_all_iff)
  have r: "rev (p @ ''#'' @ f) = rev f @ CHR ''#'' # rev p" by simp
  have t: "takeWhile isWordChar (rev f @ CHR ''#'' # rev p) = rev f"
    using takeWhile_append2 [of "rev f" isWordChar "CHR ''#'' # rev p"] w
    by (simp add: hash_not_wordChar)
  have d: "dropWhile isWordChar (rev f @ CHR ''#'' # rev p) = CHR ''#'' # rev p"
    using dropWhile_append2 [of "rev f" isWordChar "CHR ''#'' # rev p"] w
    by (simp add: hash_not_wordChar)
  show ?thesis
    unfolding fieldMatch_def r t d using assms by (simp add: Let_def)
qed

lemma parseSecretRef_known_prefix_with_field:
  assumes "(name, b) \<in> set prefixNames"
      and "p \<noteq> []" and "\<not> list_ex isLineTerminator p"
      and "f \<noteq> []" and "list_all isWordChar f"
  shows "parseSecretRef (name @ '':'' @ p @ ''#'' @ f) d
           = \<lparr>backend = b, path = p, field = Some f\<rparr>"
proof -
  have "\<not> list_ex isLineTerminator (p @ ''#'' @ f)"
    using assms(3,5) by (auto simp: list_ex_iff list_all_iff hash_not_wordChar
        dest: wordChar_not_terminator)
  with assms(1) have "prefixMatch (name @ '':'' @ (p @ ''#'' @ f)) = Some (b, p @ ''#'' @ f)"
    by (intro prefixMatch_known) auto
  moreover have "fieldMatch (p @ ''#'' @ f) = Some (p, f)"
    using assms(2-5) by (rule fieldMatch_field)
  ultimately show ?thesis by (simp add: parseSecretRef_def)
qed

lemma parseSecretRef_known_prefix_without_field:
  assumes "(name, b) \<in> set prefixNames"
      and "p \<noteq> []" and "\<not> list_ex isLineTerminator p" and "CHR ''#'' \<notin> set p"
  shows "parseSecretRef (name @ '':'' @ p) d = \<lparr>backend = b, path = p, field = None\<rparr>"
proof -
  have "fieldMatch p = None"
  proof (rule ccontr)
    assume "fieldMatch p \<noteq> None"
    then have ne: "dropWhile isWordChar (rev p) \<noteq> []"
      and "last (rev (dropWhile isWordChar (rev p))) = CHR ''#''"
      by (auto simp: fieldMatch_def Let_def split: if_splits)
    then have "hd (dropWhile isWordChar (rev p)) = CHR ''#''"
      by (simp add: last_rev)
    moreover have "hd (dropWhile isWordChar (rev p)) \<in> set (rev p)"
      using ne by (meson hd_in_set set_dropWhileD)
    ultimately show False using assms(4) by simp
  qed
  moreover have "prefixMatch (name @ '':'' @ p) = Some (b, p)"
    using assms(1-3) by (rule prefixMatch_known)
  ultimately show ?thesis by (simp add: parseSecretRef_def)
qed

lemma parseSecretRef_no_prefix:
  assumes "prefixMatch ref = None" and "CHR ''#'' \<notin> set ref"
  shows "parseSecretRef ref d = \<lparr>backend = d, path = ref, field = None\<rparr>"
proof -
  have "fieldMatch ref = None"
  proof (rule ccontr)
    assume "fieldMatch ref \<noteq> None"
    then have ne: "dropWhile isWordChar (rev ref) \<noteq> []"
      and "last (rev (dropWhile isWordChar (rev ref))) = CHR ''#''"
      by (auto simp: fieldMatch_def Let_def split: if_splits)
    then have "hd (dropWhile isWordChar (rev ref)) = CHR ''#''"
      by (simp add: last_rev)
    moreover have "hd (dropWhile isWordChar (rev ref)) \<in> set (rev ref)"
      using ne by (meson hd_in_set set_dropWhileD)
    ultimately show False using assms(2) by simp
  qed
  with assms(1) show ?thesis by (simp add: parseSecretRef_def)
qed

lemma prefixMatch_ganesh: "prefixMatch (''ganesh:'' @ r) = None"
  by (simp add: prefixMatch_def prefixNames_def)

text \<open>
  C4.  A reference that names the \<open>ganesh\<close> backend, the sixth member of the declared
  backend set, is not taken apart: the prefix test of \<open>parseSecretRef\<close> knows five names
  only, so the reference \<^verbatim>\<open>ganesh:openclaw/telegram-bot-token\<close> comes back with the
  default backend and with the whole string, prefix included, as its path.
\<close>

theorem parseSecretRef_ganesh_prefix_kept_in_path:
  "parseSecretRef ''ganesh:openclaw/telegram-bot-token'' Pass
     = \<lparr>backend = Pass, path = ''ganesh:openclaw/telegram-bot-token'', field = None\<rparr>"
  by (simp add: parseSecretRef_def prefixMatch_def prefixNames_def fieldMatch_def
      isWordChar_def isLineTerminator_def)

section \<open>The pass backend\<close>

text \<open>
  C10.  \<open>PassBackend.resolve\<close> returns \<open>null\<close> whenever the external command fails,
  whatever the error text (the "not in the password store" message included), and
  otherwise the trimmed first line of the command's output, or \<open>null\<close> when that line
  is empty after trimming.  It has no other outcome: the body never throws.
\<close>

theorem passResolve_trimmed_first_line_or_null:
  "(case exec h (passShowCommand (sanitizePath secretPath)) (passEnv b) of
      Inl message \<Rightarrow> passResolve h b secretPath fld = None
    | Inr stdout \<Rightarrow>
        (trim (firstLine stdout) = [] \<and> passResolve h b secretPath fld = None)
        \<or> (trim (firstLine stdout) \<noteq> []
            \<and> passResolve h b secretPath fld = Some (trim (firstLine stdout))))"
  by (simp add: passResolve_def Let_def split: sum.splits)

theorem passResolve_trimmed_first_line_or_null_witness:
  "passResolve demoHost (newPassBackend demoHost None) ''openclaw/token'' None = Some ''s3cret''
   \<and> passResolve demoHost (newPassBackend demoHost None) ''openclaw/missing'' None = None"
  using passResolve_trimmed_first_line_or_null
          [where h = demoHost and secretPath = "''openclaw/token''"
             and b = "newPassBackend demoHost None" and fld = None]
        passResolve_trimmed_first_line_or_null
          [where h = demoHost and secretPath = "''openclaw/missing''"
             and b = "newPassBackend demoHost None" and fld = None]
  by (simp add: demoHost_def passShowCommand_def sanitizePath_def isAlnum_def trim_def
      firstLine_def isSpace_def)

section \<open>The tiered vault backend\<close>

lemma trim_key: "trim ''AGE-SECRET-KEY-1X'' = ''AGE-SECRET-KEY-1X''" "trim ''age1pub'' = ''age1pub''"
  by (simp_all add: trim_def isSpace_def)

lemma demo_unlock: "unlock demoVault newGaneshBackend = (True, demoUnlocked)"
  by (simp add: unlock_def newGaneshBackend_def demoVault_def demoUnlocked_def loadSecrets_def
      truthy_def trim_key Let_def)

lemma demo_locked: "unlocked newGaneshBackend = False"
  by (simp add: newGaneshBackend_def)

lemma demo_store:
  "store ''db/password'' ''new'' (demoVault, newGaneshBackend)
     = (True,
        demoVault\<lparr>secretsAge := Some (demoSecrets(''db/password'' \<mapsto> ''new'')),
                   manifestJson := Content demoManifestAfter\<rparr>,
        demoUnlocked\<lparr>gSecretsCache := demoSecrets(''db/password'' \<mapsto> ''new'')\<rparr>)"
  apply (simp add: store_def demo_unlock demo_locked Let_def)
  apply (simp add: saveSecrets_def updateManifest_def trackSecret_def demoManifest_def
      demoManifestAfter_def demoVault_def demoUnlocked_def truthy_def)
  done

lemma tierOfGroups_find:
  "tierOfGroups gs p = map_option tier (find (\<lambda>g. p \<in> set (secrets g)) gs)"
  by (induction gs) auto

text \<open>
  C7.  The tier of a path is the tier of the first group of the manifest that lists it,
  and \<open>defaultTier\<close> when no group lists it.  With \<open>defaultTier = 1\<close> and no group
  listing the path, \<open>resolve\<close> (after the unlock it may have to do first) answers from
  the in-memory map and leaves the approval transport untouched: no request is sent.
\<close>

theorem getSecretTier_of_group_or_default_and_tier1_direct:
  assumes u: "(if unlocked b then (True, b) else unlock v b) = (True, b')"
      and m: "manifest b' = Some m"
  shows "getSecretTier b' p
           = (case find (\<lambda>g. p \<in> set (secrets g)) (groups m) of
                Some g \<Rightarrow> tier g | None \<Rightarrow> defaultTier m)
         \<and> ((\<forall>g\<in>set (groups m). p \<notin> set (secrets g)) \<and> defaultTier m = 1
              \<longrightarrow> getSecretTier b' p = 1
                  \<and> resolve v p (b, tg) = (Inr (gSecretsCache b' p), b', tg))"
proof -
  have t: "getSecretTier b' p
           = (case find (\<lambda>g. p \<in> set (secrets g)) (groups m) of
                Some g \<Rightarrow> tier g | None \<Rightarrow> defaultTier m)"
    using m by (simp add: getSecretTier_def tierOfGroups_find split: option.splits)
  have one: "getSecretTier b' p = 1"
    if "\<forall>g\<in>set (groups m). p \<notin> set (secrets g)" and "defaultTier m = 1"
  proof -
    have "find (\<lambda>g. p \<in> set (secrets g)) (groups m) = None"
      using that(1) by (simp add: find_None_iff)
    with t that(2) show ?thesis by simp
  qed
  have r: "resolve v p (b, tg) = (Inr (gSecretsCache b' p), b', tg)"
    if "getSecretTier b' p = 1"
  proof -
    have "(if \<not> unlocked b then unlock v b else (True, b)) = (True, b')"
      using u by (simp split: if_splits)
    with that show ?thesis by (simp add: resolve_def Let_def)
  qed
  show ?thesis using t one r by blast
qed


theorem getSecretTier_of_group_or_default_and_tier1_direct_witness:
  "fst (resolve demoVault ''test/api-key'' (newGaneshBackend, demoTelegram))
     = Inr (Some ''sk-test-123'')
   \<and> sent (snd (snd (resolve demoVault ''test/api-key'' (newGaneshBackend, demoTelegram)))) = []
   \<and> getSecretTier demoUnlocked ''test/api-key'' = 1
   \<and> getSecretTier demoUnlocked ''db/password'' = 3"
proof -
  have u: "(if unlocked newGaneshBackend then (True, newGaneshBackend)
            else unlock demoVault newGaneshBackend) = (True, demoUnlocked)"
    by (simp add: demo_locked demo_unlock)
  have m: "manifest demoUnlocked = Some demoManifest"
    by (simp add: demoUnlocked_def)
  have g: "(\<forall>g\<in>set (groups demoManifest). ''test/api-key'' \<notin> set (secrets g))
           \<and> defaultTier demoManifest = 1"
    by (simp add: demoManifest_def)
  from getSecretTier_of_group_or_default_and_tier1_direct
         [OF u m, where p = "''test/api-key''" and tg = demoTelegram] g
  have 1: "getSecretTier demoUnlocked ''test/api-key'' = 1"
    and 2: "resolve demoVault ''test/api-key'' (newGaneshBackend, demoTelegram)
            = (Inr (gSecretsCache demoUnlocked ''test/api-key''), demoUnlocked, demoTelegram)"
    by blast+
  from getSecretTier_of_group_or_default_and_tier1_direct
         [OF u m, where p = "''db/password''" and tg = demoTelegram]
  have 3: "getSecretTier demoUnlocked ''db/password'' = 3"
    by (simp add: demoManifest_def)
  from 1 2 3 show ?thesis
    by (simp add: demoUnlocked_def demoSecrets_def demoTelegram_def)
qed

text \<open>
  C2.  A successful \<open>resolve\<close> of a tier-3 path went through an approved exchange, read
  the value from the in-memory decrypted map, and wrote nothing to the backend beyond
  the unlock it may have had to do.  A second \<open>resolve\<close> of the same path sends a new
  approval request and returns the value only if that new request is approved: there
  is no cache to answer from.
\<close>

theorem resolve_tier3_fresh_exchange_every_call:
  assumes first: "resolve v p (b, tg) = (Inr (Some x), b1, tg1)"
      and tier3: "3 \<le> getSecretTier b1 p"
  shows "\<exists>req.
     reqSecretId req = p
     \<and> sent tg1 = sent tg @ [req] \<and> reply tg (length (sent tg)) req = Approved
     \<and> gSecretsCache b1 p = Some x
     \<and> b1 = (if unlocked b then b else snd (unlock v b))
     \<and> fst (snd (resolve v p (b1, tg1))) = b1
     \<and> sent (snd (snd (resolve v p (b1, tg1)))) = sent tg1 @ [req]
     \<and> fst (resolve v p (b1, tg1))
         = (if reply tg1 (length (sent tg1)) req = Approved then Inr (Some x) else Inr None)"
proof -
  obtain okU b' where u: "(if \<not> unlocked b then unlock v b else (True, b)) = (okU, b')"
    by (cases "(if \<not> unlocked b then unlock v b else (True, b))")
  have okU: okU and b1: "b1 = b'"
    using first u by (auto simp: resolve_def Let_def split: if_splits prod.splits)
  have unl: "unlocked b1"
    using u okU b1 by (auto simp: unlock_def Let_def loadSecrets_def split: if_splits option.splits vfile.splits)
  have b1': "b1 = (if unlocked b then b else snd (unlock v b))"
    using u b1 by (auto split: if_splits)
  have t3: "resolveTier3 v b1 p tg = (Inr (Some x), tg1)"
    using first u okU b1 tier3 by (auto simp: resolve_def Let_def split: if_splits prod.splits)
  then obtain cfg where cfg: "getMfaConfig v b1 = Inr (Some cfg)"
    by (auto simp: resolveTier3_def Let_def split: sum.splits option.splits mfa_reply.splits)
  define req where "req = \<lparr>reqSecretId = p, reqGroupName = getSecretGroup b1 p, reqConfig = cfg\<rparr>"
  have a: "sent tg1 = sent tg @ [req]" "reply tg (length (sent tg)) req = Approved" "gSecretsCache b1 p = Some x"
     and tg1: "tg1 = tg\<lparr>sent := sent tg @ [req]\<rparr>"
    using t3 cfg by (auto simp: resolveTier3_def Let_def req_def split: mfa_reply.splits)
  have second: "resolve v p (b1, tg1) = (let (r, tg') = resolveTier3 v b1 p tg1 in (r, b1, tg'))"
    using unl tier3 by (simp add: resolve_def Let_def)
  have "resolveTier3 v b1 p tg1 = ((if reply tg1 (length (sent tg1)) req = Approved then Inr (Some x) else Inr None), tg1\<lparr>sent := sent tg1 @ [req]\<rparr>)"
    using cfg a(3) by (auto simp: resolveTier3_def Let_def req_def split: mfa_reply.splits)
  with second have "resolve v p (b1, tg1) = ((if reply tg1 (length (sent tg1)) req = Approved then Inr (Some x) else Inr None), b1, tg1\<lparr>sent := sent tg1 @ [req]\<rparr>)"
    by simp
  then show ?thesis using a b1' by (intro exI [of _ req]) (simp add: req_def)
qed


lemma demo_mfa_config:
  "getMfaConfig demoVault demoUnlocked = Inr (Some (reqConfig demoRequest))"
  by (simp add: getMfaConfig_def demoVault_def demoUnlocked_def demoSecrets_def truthy_def
      orElse_def trim_def isSpace_def demoRequest_def Let_def)

lemma demo_tier3: "getSecretTier demoUnlocked ''db/password'' = 3"
  by (simp add: getSecretTier_def demoUnlocked_def demoManifest_def)

lemma demo_first_resolve:
  "resolve demoVault ''db/password'' (newGaneshBackend, demoTelegram)
     = (Inr (Some ''hunter2''), demoUnlocked, demoTelegram\<lparr>sent := [demoRequest]\<rparr>)"
  apply (simp add: resolve_def demo_locked demo_unlock demo_tier3 Let_def resolveTier3_def
      demo_mfa_config)
  apply (simp add: demoTelegram_def demoRequest_def getSecretGroup_def demoUnlocked_def
      demoManifest_def demoSecrets_def)
  done

theorem resolve_tier3_fresh_exchange_every_call_witness:
  "fst (resolve demoVault ''db/password'' (newGaneshBackend, demoTelegram)) = Inr (Some ''hunter2'')
   \<and> fst (resolve demoVault ''db/password'' (demoUnlocked, demoTelegram\<lparr>sent := [demoRequest]\<rparr>))
       = Inr None
   \<and> sent (snd (snd (resolve demoVault ''db/password''
                          (demoUnlocked, demoTelegram\<lparr>sent := [demoRequest]\<rparr>))))
       = [demoRequest, demoRequest]"
proof -
  have t: "3 \<le> getSecretTier demoUnlocked ''db/password''"
    by (simp add: demo_tier3)
  from resolve_tier3_fresh_exchange_every_call [OF demo_first_resolve t]
  have "fst (resolve demoVault ''db/password''
               (demoUnlocked, demoTelegram\<lparr>sent := [demoRequest]\<rparr>)) = Inr None
        \<and> sent (snd (snd (resolve demoVault ''db/password''
                               (demoUnlocked, demoTelegram\<lparr>sent := [demoRequest]\<rparr>))))
            = [demoRequest, demoRequest]"
    by (auto simp: demoTelegram_def)
  then show ?thesis
    by (simp add: demo_first_resolve)
qed

lemma addToDefault_None_find:
  "addToDefault p gs = None \<longleftrightarrow> find (\<lambda>g. groupId g = ''default'') gs = None"
  by (induction gs) simp_all

lemma addToDefault_Some:
  "addToDefault p gs = Some gs' \<Longrightarrow>
     \<exists>pre d post. gs = pre @ d # post \<and> (\<forall>g\<in>set pre. groupId g \<noteq> ''default'')
        \<and> find (\<lambda>g. groupId g = ''default'') gs = Some d
        \<and> gs' = pre @ (if p \<in> set (secrets d) then d else d\<lparr>secrets := secrets d @ [p]\<rparr>) # post"
proof (induction gs arbitrary: gs')
  case Nil
  then show ?case by simp
next
  case (Cons g gs)
  show ?case
  proof (cases "groupId g = ''default''")
    case True
    with Cons.prems show ?thesis
      by (intro exI [of _ "[]"] exI [of _ g] exI [of _ gs]) auto
  next
    case False
    with Cons.prems obtain gs1 where 1: "addToDefault p gs = Some gs1" and 2: "gs' = g # gs1"
      by auto
    from Cons.IH [OF 1] obtain pre d post where
      3: "gs = pre @ d # post" "\<forall>g\<in>set pre. groupId g \<noteq> ''default''"
         "find (\<lambda>g. groupId g = ''default'') gs = Some d"
         "gs1 = pre @ (if p \<in> set (secrets d) then d else d\<lparr>secrets := secrets d @ [p]\<rparr>) # post"
      by blast
    with False 2 show ?thesis
      by (intro exI [of _ "g # pre"] exI [of _ d] exI [of _ post]) auto
  qed
qed

lemma membershipCount_append: "membershipCount p (xs @ ys) = membershipCount p xs + membershipCount p ys"
  by (simp add: membershipCount_def)

lemma membershipCount_Cons: "membershipCount p (g # gs) = (if p \<in> set (secrets g) then 1 else 0) + membershipCount p gs"
  by (simp add: membershipCount_def)

text \<open>
  What a successful \<open>store\<close> does to the manifest file.  \<open>updateManifest\<close> looks at
  the first group with id \<open>default\<close> and at no other group: it appends the path to that
  group unless that group lists it already, and appends a new group \<open>default\<close> of tier 1
  holding the path when the manifest has none.  A path that no group listed therefore
  ends in exactly one group.
\<close>

lemma store_updates_default_group_only:
  assumes "store p val (v, b) = (True, v', b')"
  shows "\<exists>m m'. manifestJson v = Content m \<and> manifestJson v' = Content m'
      \<and> (case find (\<lambda>g. groupId g = ''default'') (groups m) of
            None \<Rightarrow>
              groups m' = groups m @
                [\<lparr>groupId = ''default'', groupName = ''Default'', tier = 1, secrets = [p]\<rparr>]
              \<and> membershipCount p (groups m') = membershipCount p (groups m) + 1
          | Some d \<Rightarrow>
              if p \<in> set (secrets d) then groups m' = groups m
              else (\<exists>pre post. groups m = pre @ d # post
                      \<and> (\<forall>g\<in>set pre. groupId g \<noteq> ''default'')
                      \<and> groups m' = pre @ d\<lparr>secrets := secrets d @ [p]\<rparr> # post)
                   \<and> membershipCount p (groups m') = membershipCount p (groups m) + 1)
      \<and> ((\<forall>g\<in>set (groups m). p \<notin> set (secrets g)) \<longrightarrow> membershipCount p (groups m') = 1)"
proof -
  obtain okU b0 where u: "(if \<not> unlocked b then unlock v b else (True, b)) = (okU, b0)"
    by (cases "(if \<not> unlocked b then unlock v b else (True, b))")
  from assms u obtain v1 where
    s: "saveSecrets v (b0\<lparr>gSecretsCache := (gSecretsCache b0)(p \<mapsto> val)\<rparr>) = Some v1"
    and um: "updateManifest v1 p = Some v'"
    by (auto simp: store_def Let_def split: if_splits option.splits)
  have mj: "manifestJson v1 = manifestJson v"
    using s by (auto simp: saveSecrets_def split: if_splits)
  from um obtain m where m: "manifestJson v1 = Content m"
    and m': "manifestJson v' = Content (trackSecret p m)"
    by (auto simp: updateManifest_def split: vfile.splits if_splits)
  let ?m' = "trackSecret p m"
  have shape: "(case find (\<lambda>g. groupId g = ''default'') (groups m) of
            None \<Rightarrow>
              groups ?m' = groups m @
                [\<lparr>groupId = ''default'', groupName = ''Default'', tier = 1, secrets = [p]\<rparr>]
              \<and> membershipCount p (groups ?m') = membershipCount p (groups m) + 1
          | Some d \<Rightarrow>
              if p \<in> set (secrets d) then groups ?m' = groups m
              else (\<exists>pre post. groups m = pre @ d # post
                      \<and> (\<forall>g\<in>set pre. groupId g \<noteq> ''default'')
                      \<and> groups ?m' = pre @ d\<lparr>secrets := secrets d @ [p]\<rparr> # post)
                   \<and> membershipCount p (groups ?m') = membershipCount p (groups m) + 1)"
  proof (cases "addToDefault p (groups m)")
    case None
    then have "find (\<lambda>g. groupId g = ''default'') (groups m) = None"
      by (simp add: addToDefault_None_find)
    with None show ?thesis
      by (simp add: trackSecret_def membershipCount_append membershipCount_Cons membershipCount_def)
  next
    case (Some gs')
    from addToDefault_Some [OF Some] obtain pre d post where
      3: "groups m = pre @ d # post" "\<forall>g\<in>set pre. groupId g \<noteq> ''default''"
         "find (\<lambda>g. groupId g = ''default'') (groups m) = Some d"
         "gs' = pre @ (if p \<in> set (secrets d) then d else d\<lparr>secrets := secrets d @ [p]\<rparr>) # post"
      by blast
    have g: "groups ?m' = gs'" using Some by (simp add: trackSecret_def)
    show ?thesis
    proof (cases "p \<in> set (secrets d)")
      case True
      with 3 g show ?thesis by simp
    next
      case False
      with 3 g have "groups ?m' = pre @ d\<lparr>secrets := secrets d @ [p]\<rparr> # post" by simp
      moreover from this False 3(1)
      have "membershipCount p (groups ?m') = membershipCount p (groups m) + 1"
        by (simp add: membershipCount_append membershipCount_Cons)
      ultimately show ?thesis using 3 False by auto
    qed
  qed
  have fresh: "membershipCount p (groups ?m') = 1" if n: "\<forall>g\<in>set (groups m). p \<notin> set (secrets g)"
  proof -
    have z: "membershipCount p (groups m) = 0" using n by (simp add: membershipCount_def)
    show ?thesis
    proof (cases "find (\<lambda>g. groupId g = ''default'') (groups m)")
      case None
      with shape z show ?thesis by (simp add: membershipCount_def)
    next
      case (Some d)
      then have "d \<in> set (groups m)" by (auto simp: find_Some_iff)
      with n have "p \<notin> set (secrets d)" by simp
      with shape Some z show ?thesis by simp
    qed
  qed
  show ?thesis using m m' mj shape fresh by auto
qed


lemma demo_store_stored:
  "store ''db/password'' ''new'' (demoVault, newGaneshBackend)
     = (True, demoVaultStored,
        demoUnlocked\<lparr>gSecretsCache := demoSecrets(''db/password'' \<mapsto> ''new'')\<rparr>)"
  by (simp add: demo_store demoVaultStored_def)

lemma demo_unlock_stored: "unlock demoVaultStored newGaneshBackend = (True, demoReloaded)"
  by (simp add: unlock_def newGaneshBackend_def demoVaultStored_def demoVault_def
      demoReloaded_def loadSecrets_def truthy_def trim_key Let_def)

lemma demo_tier_reloaded: "getSecretTier demoReloaded ''db/password'' = 1"
  by (simp add: getSecretTier_def demoReloaded_def demoManifestAfter_def)

lemma demo_resolve_before:
  "resolve demoVault ''db/password'' (newGaneshBackend, demoDenyAll)
     = (Inr None, demoUnlocked, demoDenyAll\<lparr>sent := [demoRequest]\<rparr>)"
  apply (simp add: resolve_def demo_locked demo_unlock demo_tier3 Let_def resolveTier3_def
      demo_mfa_config)
  apply (simp add: demoDenyAll_def demoRequest_def getSecretGroup_def demoUnlocked_def
      demoManifest_def)
  done

lemma demo_resolve_after:
  "resolve demoVaultStored ''db/password'' (newGaneshBackend, demoDenyAll)
     = (Inr (Some ''new''), demoReloaded, demoDenyAll)"
  apply (simp add: resolve_def demo_locked demo_unlock_stored demo_tier_reloaded Let_def)
  apply (simp add: demoReloaded_def)
  done

text \<open>
  C8.  \<open>store\<close> does not check whether another group tracks the path.  The path
  \<open>db/password\<close> is listed in the tier-3 group \<open>prod\<close> only, and resolving it sends an
  approval request (denied here, so no value comes back).  Storing it succeeds and adds
  it to the tier-1 group \<open>default\<close> as well, which stands first in the manifest: the
  path is then in two groups, and after the vault is loaded again the tier lookup gives
  1 and \<open>resolve\<close> returns the value without sending any approval request.
\<close>

theorem store_tracked_tier3_path_joins_default_group:
  "getSecretTier demoUnlocked ''db/password'' = 3
   \<and> membershipCount ''db/password'' (groups demoManifest) = 1
   \<and> resolve demoVault ''db/password'' (newGaneshBackend, demoDenyAll)
       = (Inr None, demoUnlocked, demoDenyAll\<lparr>sent := [demoRequest]\<rparr>)
   \<and> fst (store ''db/password'' ''new'' (demoVault, newGaneshBackend)) = True
   \<and> fst (snd (store ''db/password'' ''new'' (demoVault, newGaneshBackend))) = demoVaultStored
   \<and> manifestJson demoVaultStored = Content demoManifestAfter
   \<and> membershipCount ''db/password'' (groups demoManifestAfter) = 2
   \<and> getSecretTier demoReloaded ''db/password'' = 1
   \<and> resolve demoVaultStored ''db/password'' (newGaneshBackend, demoDenyAll)
       = (Inr (Some ''new''), demoReloaded, demoDenyAll)
   \<and> sent demoDenyAll = []"
proof -
  have counts: "membershipCount ''db/password'' (groups demoManifest) = 1"
    "membershipCount ''db/password'' (groups demoManifestAfter) = 2"
    by (simp_all add: membershipCount_def demoManifest_def demoManifestAfter_def)
  have stored: "fst (store ''db/password'' ''new'' (demoVault, newGaneshBackend)) = True"
    "fst (snd (store ''db/password'' ''new'' (demoVault, newGaneshBackend))) = demoVaultStored"
    by (simp_all add: demo_store_stored)
  have onDisk: "manifestJson demoVaultStored = Content demoManifestAfter"
    by (simp add: demoVaultStored_def)
  have quiet: "sent demoDenyAll = []"
    by (simp add: demoDenyAll_def)
  from demo_tier3 counts(1) demo_resolve_before stored onDisk counts(2) demo_tier_reloaded
    demo_resolve_after quiet
  show ?thesis by (intro conjI)
qed

section \<open>The resolver\<close>

lemma defaultBackendOf_None: "defaultBackendOf None = Pass"
  by (simp add: defaultBackendOf_def)

lemma createBackend_message: "createBackend h c = Inl e \<Longrightarrow> e \<noteq> []"
  by (auto simp: createBackend_def split: SecretsBackendType.splits)

lemma getBackend_message: "getBackend h t c s = Inl e \<Longrightarrow> e \<noteq> []"
  by (auto simp: getBackend_def Let_def split: option.splits sum.splits dest: createBackend_message)

lemma resolveUncached_message: "resolveUncached h tStore ref config s = Inl e \<Longrightarrow> e \<noteq> []"
  by (auto simp: resolveUncached_def Let_def split: sum.splits prod.splits if_splits option.splits
      dest: getBackend_message)

lemma resolveUncached_result:
  "resolveUncached h tStore ref config s = Inr (r, s') \<Longrightarrow>
     cached r = None \<and>
     (if ok r then (\<exists>v. value r = Some v \<and> error r = None \<and> secretsCache s' ref = Some (v, tStore))
      else value r = None \<and> (\<exists>e. error r = Some e \<and> e \<noteq> []))"
  by (auto simp: resolveUncached_def Let_def split: sum.splits prod.splits if_splits option.splits)

lemma resolveUncached_calls:
  assumes "backendInstances s (backend (parseSecretRef ref (defaultBackendOf config))) \<noteq> None"
  shows "\<exists>r s'. resolveUncached h tStore ref config s = Inr (r, s')
           \<and> take (Suc (length (backendCalls s))) (backendCalls s')
               = backendCalls s @ [IsAvailableCall (backend (parseSecretRef ref (defaultBackendOf config)))]"
  using assms
  by (auto simp: resolveUncached_def getBackend_def defaultBackendOf_def Let_def split: option.splits)

lemma resolveUncached_instance:
  "resolveUncached h tStore ref config s = Inr (r, s') \<Longrightarrow>
     backendInstances s' (backend (parseSecretRef ref (defaultBackendOf config))) \<noteq> None"
  by (auto simp: resolveUncached_def getBackend_def defaultBackendOf_def Let_def split: option.splits sum.splits if_splits)


lemma resolveSecret_expired:
  "secretsCache s ref = Some (v, resolvedAt) \<Longrightarrow> \<not> t - resolvedAt < 300000 \<Longrightarrow>
     resolveSecret h t tStore ref config s
       = (case resolveUncached h tStore ref config s of
            Inr (r, s') \<Rightarrow> (r, s') | Inl message \<Rightarrow> (errorResult message, s))"
  by (simp add: resolveSecret_def cacheFresh_def CACHE_TTL_MS_def errorResult_def
      split: sum.splits)

text \<open>
  C9.  \<open>resolveSecret\<close> always returns a result record: whatever is thrown inside its
  \<open>try\<close> block (a backend that cannot be constructed, for one) comes back as a result
  with \<open>ok = false\<close> carrying the message.  A result with \<open>ok = false\<close> has no value and
  a non-empty error; a result with \<open>ok = true\<close> has a value and no error.
\<close>

theorem resolveSecret_structured_result:
  "(case resolveSecret h tCheck tStore ref config s of
      (r, s') \<Rightarrow>
        if ok r then (\<exists>v. value r = Some v) \<and> error r = None
        else value r = None \<and> (\<exists>e. error r = Some e \<and> e \<noteq> []))
   \<and> (\<forall>message. cacheFresh tCheck s ref = None
          \<and> resolveUncached h tStore ref config s = Inl message
        \<longrightarrow> resolveSecret h tCheck tStore ref config s = (errorResult message, s))"
proof -
  have 1: ?thesis if "cacheFresh tCheck s ref = Some v" for v
    using that by (simp add: resolveSecret_def)
  have 2: ?thesis if "cacheFresh tCheck s ref = None" "resolveUncached h tStore ref config s = Inl e" for e
    using that resolveUncached_message [OF that(2)] by (simp add: resolveSecret_def errorResult_def)
  have 3: ?thesis if "cacheFresh tCheck s ref = None" "resolveUncached h tStore ref config s = Inr (r, s')" for r s'
    using that resolveUncached_result [OF that(2)] by (auto simp add: resolveSecret_def split: if_splits)
  show ?thesis
  proof (cases "cacheFresh tCheck s ref")
    case None
    then show ?thesis using 2 3
      by (cases "resolveUncached h tStore ref config s") auto
  next
    case (Some v)
    then show ?thesis by (rule 1)
  qed
qed


lemma demo_parse_vault:
  "parseSecretRef ''vault:secret/data/app#api_key'' Pass
     = \<lparr>backend = Vault, path = ''secret/data/app'', field = Some ''api_key''\<rparr>"
  by (simp add: parseSecretRef_def prefixMatch_def prefixNames_def fieldMatch_def
      isWordChar_def isLineTerminator_def)

theorem resolveSecret_structured_result_witness:
  "resolveSecret demoHost 1000 1005 ''vault:secret/data/app#api_key'' None emptyResolver
     = (errorResult ''Vault backend not yet implemented'', emptyResolver)"
proof -
  have c: "cacheFresh 1000 emptyResolver ''vault:secret/data/app#api_key'' = None"
    by (simp add: cacheFresh_def emptyResolver_def)
  have u: "resolveUncached demoHost 1005 ''vault:secret/data/app#api_key'' None emptyResolver
             = Inl ''Vault backend not yet implemented''"
    by (simp add: resolveUncached_def defaultBackendOf_None demo_parse_vault getBackend_def
        createBackend_def emptyResolver_def)
  from resolveSecret_structured_result
         [where h = demoHost and tCheck = 1000 and tStore = 1005
            and ref = "''vault:secret/data/app#api_key''" and config = None
            and s = emptyResolver] c u
  show ?thesis by blast
qed

lemma resolveSecret_expired_calls_backend:
  assumes "secretsCache s ref = Some (v, resolvedAt)" and "\<not> t - resolvedAt < 300000"
      and "backendInstances s (backend (parseSecretRef ref (defaultBackendOf config))) \<noteq> None"
  shows "take (Suc (length (backendCalls s)))
              (backendCalls (snd (resolveSecret h t tStore ref config s)))
           = backendCalls s
               @ [IsAvailableCall (backend (parseSecretRef ref (defaultBackendOf config)))]"
proof -
  from resolveUncached_calls [OF assms(3), of h tStore]
  obtain r s' where u: "resolveUncached h tStore ref config s = Inr (r, s')"
    and c: "take (Suc (length (backendCalls s))) (backendCalls s')
              = backendCalls s
                  @ [IsAvailableCall (backend (parseSecretRef ref (defaultBackendOf config)))]"
    by blast
  from resolveSecret_expired [OF assms(1,2), of h tStore config] u
  have "snd (resolveSecret h t tStore ref config s) = s'" by simp
  with c show ?thesis by simp
qed







section \<open>One-time codes\<close>

lemma totpCounter_div: "totpCounter time = time div 30000"
proof -
  have "real_of_int time / 1000 / 30 = real_of_int time / real_of_int 30000" by simp
  then show ?thesis unfolding totpCounter_def by (simp only: floor_divide_of_int_eq)
qed

lemma generateTotp_code: "generateTotp hmac secret time = totpCode hmac secret (totpCounter time)"
  by (simp add: generateTotp_def totpCode_def Let_def)

lemma upto_window: "[- 1 .. (1::int)] = [-1, 0, 1]"
  by (simp add: upto.simps)

lemma verifyTotp_codes:
  "verifyTotp hmac now secret token 1 \<longleftrightarrow>
     token \<in> {totpCode hmac secret (totpCounter now - 1), totpCode hmac secret (totpCounter now),
              totpCode hmac secret (totpCounter now + 1)}"
proof -
  have a: "totpCounter (now + - 1 * 30 * 1000) = totpCounter now - 1"
    by (simp add: totpCounter_div)
  have b: "totpCounter (now + 1 * 30 * 1000) = totpCounter now + 1"
    by (simp add: totpCounter_div)
  have c: "totpCounter (now + 0 * 30 * 1000) = totpCounter now" by simp
  show ?thesis
    unfolding verifyTotp_def upto_window generateTotp_code
    using a b c by (auto simp del: mult_minus_left)
qed

lemma totpCounter_near: "\<bar>d\<bar> \<le> 30000 \<Longrightarrow> totpCounter (now + d) \<in> {totpCounter now - 1, totpCounter now, totpCounter now + 1}"
  unfolding totpCounter_div by auto

lemma totpCounter_far: "90000 \<le> \<bar>d\<bar> \<Longrightarrow> 3 \<le> \<bar>totpCounter (now + d) - totpCounter now\<bar>"
  unfolding totpCounter_div by (auto simp: abs_if split: if_splits)



text \<open>
  C6 (as amended).  With the default window, \<open>verifyTotp\<close> accepts exactly the codes of
  three time steps: the 30-second step of the current time and the steps before and
  after it.  A code generated from the same secret at most 30 seconds in the past or
  future is the code of one of these steps and is accepted.  A code generated 90
  seconds or more away is the code of a step at least three steps away from the
  current one; it is accepted only when its six digits equal the code of one of the
  three checked steps.
\<close>

theorem verifyTotp_accepts_codes_of_three_steps:
  "(\<bar>d\<bar> \<le> 30000 \<longrightarrow> verifyTotp hmac now secret (generateTotp hmac secret (now + d)) 1)
   \<and> (verifyTotp hmac now secret token 1 \<longleftrightarrow>
        token \<in> {totpCode hmac secret (now div 30000 - 1), totpCode hmac secret (now div 30000),
                 totpCode hmac secret (now div 30000 + 1)})
   \<and> generateTotp hmac secret (now + d) = totpCode hmac secret ((now + d) div 30000)
   \<and> (90000 \<le> \<bar>d\<bar> \<longrightarrow> 3 \<le> \<bar>(now + d) div 30000 - now div 30000\<bar>)"
proof -
  have w: "verifyTotp hmac now secret token 1 \<longleftrightarrow>
        token \<in> {totpCode hmac secret (now div 30000 - 1), totpCode hmac secret (now div 30000),
                 totpCode hmac secret (now div 30000 + 1)}" for token
    using verifyTotp_codes [of hmac now secret token] by (simp add: totpCounter_div)
  have g: "generateTotp hmac secret (now + d) = totpCode hmac secret ((now + d) div 30000)"
    by (simp add: generateTotp_code totpCounter_div)
  have n: "verifyTotp hmac now secret (generateTotp hmac secret (now + d)) 1" if "\<bar>d\<bar> \<le> 30000"
  proof -
    from totpCounter_near [OF that, of now]
    have "(now + d) div 30000 \<in> {now div 30000 - 1, now div 30000, now div 30000 + 1}"
      by (simp add: totpCounter_div)
    then show ?thesis unfolding w g by auto
  qed
  have f: "3 \<le> \<bar>(now + d) div 30000 - now div 30000\<bar>" if "90000 \<le> \<bar>d\<bar>"
    using totpCounter_far [OF that, of now] by (simp add: totpCounter_div)
  from w g n f show ?thesis by blast
qed


theorem verifyTotp_accepts_codes_of_three_steps_witness:
  "verifyTotp demoHmac 59000000 ''JBSWY3DPEHPK3PXP''
     (generateTotp demoHmac ''JBSWY3DPEHPK3PXP'' (59000000 + 29999)) 1
   \<and> verifyTotp demoHmac 59000000 ''JBSWY3DPEHPK3PXP''
     (generateTotp demoHmac ''JBSWY3DPEHPK3PXP'' (59000000 + (- 30000))) 1
   \<and> (3::int) \<le> \<bar>(59000000 + 90000) div 30000 - 59000000 div 30000\<bar>"
  using verifyTotp_accepts_codes_of_three_steps [of 29999 demoHmac 59000000 "''JBSWY3DPEHPK3PXP''"]
        verifyTotp_accepts_codes_of_three_steps [of "- 30000" demoHmac 59000000 "''JBSWY3DPEHPK3PXP''"]
        verifyTotp_accepts_codes_of_three_steps [of 90000 demoHmac 59000000 "''JBSWY3DPEHPK3PXP''"]
  by simp

lemma totpCode_range:
  "totpCode hmac secret c \<in> (\<lambda>n. padStart 6 (CHR ''0'') (natToString n)) ` {0..<1000000}"
  unfolding totpCode_def by (rule imageI) simp

text \<open>
  C6, the claim as stated fails: a code has six digits, so among the time steps
  \<open>0, 3, 6, \<dots>\<close> two carry the same code, whatever the keyed hash and the secret.  A
  code generated at one of them, 90 seconds or more from the other, is accepted there.
\<close>

theorem verifyTotp_accepts_some_distant_code_counterexample:
  "\<forall>hmac secret. \<exists>now t. 90000 \<le> \<bar>t - now\<bar>
       \<and> verifyTotp hmac now secret (generateTotp hmac secret t) 1"
proof (intro allI)
  fix hmac :: "byte list \<Rightarrow> byte list \<Rightarrow> byte list" and secret :: string
  let ?f = "\<lambda>i::nat. totpCode hmac secret (3 * int i)"
  let ?codes = "(\<lambda>n. padStart 6 (CHR ''0'') (natToString n)) ` {0..<1000000::nat}"
  have "?f ` {0..1000000} \<subseteq> ?codes"
    using totpCode_range by blast
  then have "card (?f ` {0..1000000}) \<le> card ?codes"
    by (intro card_mono) auto
  also have "card ?codes \<le> card {0..<1000000::nat}"
    by (rule card_image_le) simp
  finally have "card (?f ` {0..1000000}) < card {0..1000000::nat}"
    by simp
  then have "\<not> inj_on ?f {0..1000000}"
    by (rule pigeonhole)
  then obtain i j where ij: "i \<noteq> j" "?f i = ?f j"
    by (auto simp: inj_on_def)
  let ?now = "int i * 90000" and ?t = "int j * 90000"
  have far: "90000 \<le> \<bar>?t - ?now\<bar>"
    using ij(1) by (auto simp: abs_if)
  have "generateTotp hmac secret ?t = totpCode hmac secret (3 * int j)"
    by (simp add: generateTotp_code totpCounter_div)
  also have "\<dots> = totpCode hmac secret (totpCounter ?now)"
    using ij(2) by (simp add: totpCounter_div)
  finally have "verifyTotp hmac ?now secret (generateTotp hmac secret ?t) 1"
    by (simp add: verifyTotp_codes)
  with far show "\<exists>now t. 90000 \<le> \<bar>t - now\<bar>
       \<and> verifyTotp hmac now secret (generateTotp hmac secret t) 1"
    by blast
qed

section \<open>The command policy gate\<close>

lemma normalizeAction_decisionName: "normalizeAction (decisionName x) = x"
  by (cases x) (simp_all add: normalizeAction_def decisionName_def toLowerCase_def)

lemma find_Some_set: "find P xs = Some z \<Longrightarrow> z \<in> set xs \<and> P z"
  by (induction xs) (auto split: if_splits)

lemma find_insort_key:
  "sorted (map f ys) \<Longrightarrow>
     find P (insort_key f x ys)
       = (if P x then (case find P ys of None \<Rightarrow> Some x
                        | Some y \<Rightarrow> if f x \<le> f y then Some x else Some y)
          else find P ys)"
proof (induction ys)
  case Nil
  then show ?case by simp
next
  case (Cons y ys)
  show ?case
  proof (cases "f x \<le> f y")
    case True
    have "f x \<le> f z" if "find P (y # ys) = Some z" for z
    proof -
      from that have "z \<in> set (y # ys)" by (rule find_Some_set [THEN conjunct1])
      with Cons.prems have "f y \<le> f z" by auto
      with True show ?thesis by simp
    qed
    with True show ?thesis by (auto split: option.splits)
  next
    case False
    with Cons show ?thesis by (auto split: option.splits)
  qed
qed

lemma find_sort_key_None: "find P (sort_key f xs) = None \<longleftrightarrow> (\<forall>x\<in>set xs. \<not> P x)"
  by (simp add: find_None_iff Ball_def)

lemma find_sort_key_Some:
  "find P (sort_key f xs) = Some r \<Longrightarrow>
     r \<in> set xs \<and> P r \<and> (\<forall>x\<in>set xs. P x \<longrightarrow> f r \<le> f x)
     \<and> find (\<lambda>x. P x \<and> f x = f r) xs = Some r"
proof (induction xs arbitrary: r)
  case Nil
  then show ?case by simp
next
  case (Cons x xs)
  let ?S = "sort_key f xs"
  have ins: "find P (insort_key f x ?S)
       = (if P x then (case find P ?S of None \<Rightarrow> Some x
                        | Some y \<Rightarrow> if f x \<le> f y then Some x else Some y)
          else find P ?S)"
    by (rule find_insort_key) simp
  from Cons.prems have res: "find P (insort_key f x ?S) = Some r" by simp
  show ?case
  proof (cases "find P ?S")
    case None
    then have no: "\<forall>z\<in>set xs. \<not> P z" by (simp add: find_None_iff Ball_def)
    from res ins None have "P x" "r = x" by (auto split: if_splits)
    with no show ?thesis by auto
  next
    case (Some y)
    from Cons.IH [OF Some] have y: "y \<in> set xs" "P y" "\<forall>z\<in>set xs. P z \<longrightarrow> f y \<le> f z"
      "find (\<lambda>z. P z \<and> f z = f y) xs = Some y" by auto
    show ?thesis
    proof (cases "P x \<and> f x \<le> f y")
      case True
      with res ins Some have "r = x" by simp
      with True y show ?thesis by (auto intro: order_trans)
    next
      case False
      with res ins Some have "r = y" by (auto split: if_splits)
      with False y show ?thesis by auto
    qed
  qed
qed

lemma find_filter: "find P (filter Q xs) = find (\<lambda>x. Q x \<and> P x) xs"
  by (induction xs) auto

lemma find_commandRules:
  "find (allMatch e d) (commandRules p) = None \<longleftrightarrow> (\<forall>r\<in>set (declaredRules p). \<not> ruleApplies e d r)"
  by (auto simp: commandRules_def declaredRules_def find_None_iff ruleApplies_def allMatch_def
      Ball_def)

lemma find_commandRules_Some:
  assumes "find (allMatch e d) (commandRules p) = Some r"
  shows "\<exists>i<length (declaredRules p).
           declaredRules p ! i = r \<and> ruleApplies e d r
           \<and> (\<forall>j<length (declaredRules p). ruleApplies e d (declaredRules p ! j) \<longrightarrow>
                 rulePriority (declaredRules p ! j) \<le> rulePriority r
                 \<and> (rulePriority (declaredRules p ! j) = rulePriority r \<longrightarrow> i \<le> j))"
proof -
  let ?rs = "declaredRules p"
  let ?Q = "\<lambda>r. subject r = ''command'' \<and> enabled r \<noteq> Some False"
  let ?f = "\<lambda>r. - rulePriority r"
  from assms have "find (allMatch e d) (sort_key ?f (filter ?Q ?rs)) = Some r"
    by (simp add: commandRules_def declaredRules_def)
  from find_sort_key_Some [OF this]
  have a: "r \<in> set (filter ?Q ?rs)" "allMatch e d r"
    "\<forall>x\<in>set (filter ?Q ?rs). allMatch e d x \<longrightarrow> ?f r \<le> ?f x"
    "find (\<lambda>x. allMatch e d x \<and> ?f x = ?f r) (filter ?Q ?rs) = Some r"
    by auto
  from a(4) have "find (\<lambda>x. ruleApplies e d x \<and> rulePriority x = rulePriority r) ?rs = Some r"
    by (simp add: find_filter ruleApplies_def allMatch_def conj_assoc)
  then obtain i where i: "i < length ?rs" "?rs ! i = r" "ruleApplies e d r"
    "\<forall>j<i. \<not> (ruleApplies e d (?rs ! j) \<and> rulePriority (?rs ! j) = rulePriority r)"
    by (auto simp: find_Some_iff)
  have "rulePriority (?rs ! j) \<le> rulePriority r
          \<and> (rulePriority (?rs ! j) = rulePriority r \<longrightarrow> i \<le> j)"
    if j: "j < length ?rs" "ruleApplies e d (?rs ! j)" for j
  proof -
    from j have "?rs ! j \<in> set (filter ?Q ?rs)" "allMatch e d (?rs ! j)"
      by (auto simp: ruleApplies_def allMatch_def)
    with a(3) have "rulePriority (?rs ! j) \<le> rulePriority r" by auto
    moreover have "i \<le> j" if "rulePriority (?rs ! j) = rulePriority r"
      using i(4) j(2) that by (meson not_le_imp_less)
    ultimately show ?thesis by simp
  qed
  with i show ?thesis by blast
qed


lemma base_git: "extractBaseCommand ''git status'' = ''git''"
  by (simp add: extractBaseCommand_def trim_def isSpace_def envAssignment_def isWordChar_def
      stripSudo_def basename_def Let_def)

lemma base_ls: "extractBaseCommand ''ls'' = ''ls''"
  by (simp add: extractBaseCommand_def trim_def isSpace_def envAssignment_def isWordChar_def
      stripSudo_def basename_def Let_def)

lemma base_sudo: "extractBaseCommand ''sudo systemctl stop openclaw'' = ''systemctl''"
  by (simp add: extractBaseCommand_def trim_def isSpace_def envAssignment_def isWordChar_def
      stripSudo_def basename_def Let_def sudoFlag_def)

text \<open>
  C3.  With the gate switched on and no policy file, \<open>evaluateCommand\<close> answers
  \<open>allow\<close> with the reason "No policy config found" and returns at once: nothing is
  appended to the audit log.  (\<open>loadPolicy\<close> catches its own failures and returns
  \<open>null\<close>, so a file that cannot be read or parsed takes the same path; the \<open>catch\<close>
  of \<open>evaluateCommand\<close> that would write the audit entry is never entered.)
\<close>

theorem evaluateCommand_no_policy_writes_no_audit:
  "isPolicyGateEnabled absentGateEnv
   \<and> evaluateCommand absentGateEnv 1000 ''ls'' noOpts emptyGate
       = (\<lparr>decision = Allow, reason = ''No policy config found'', matchedRule = None,
           evaluatedAt = 1000\<rparr>,
          emptyGate\<lparr>lastPolicyCheck := 1000\<rparr>)
   \<and> auditLog (snd (evaluateCommand absentGateEnv 1000 ''ls'' noOpts emptyGate)) = []"
  by (simp add: evaluateCommand_def isPolicyGateEnabled_def absentGateEnv_def toLowerCase_def
      loadPolicy_def emptyGate_def)

lemma evaluateCommand_without_policy:
  assumes "isPolicyGateEnabled e" and "fst (loadPolicy e now s) = None"
  shows "decision (fst (evaluateCommand e now command os s)) = Allow
         \<and> reason (fst (evaluateCommand e now command os s)) = ''No policy config found''
         \<and> auditLog (snd (evaluateCommand e now command os s)) = auditLog s"
proof -
  obtain pol s1 where l: "loadPolicy e now s = (pol, s1)" by (cases "loadPolicy e now s")
  with assms(2) have "pol = None" by simp
  moreover have "auditLog s1 = auditLog s"
    using l by (auto simp: loadPolicy_def Let_def split: if_splits policy_file.splits option.splits)
  ultimately show ?thesis using assms(1) l by (simp add: evaluateCommand_def)
qed

text \<open>
  C1.  With the gate on and a policy loaded, \<open>evaluateCommand\<close> looks only at rules
  whose subject is \<open>command\<close> and whose \<open>enabled\<close> flag is not \<open>false\<close>, and a rule
  matches only when all of its conditions hold.  If some such rule matches, the
  decision is the (normalised) action of a matching rule of highest priority, the
  first one in declaration order among those of equal priority, and \<open>matchedRule\<close> is
  its id.  If none matches, the decision is the policy's default action (normalised;
  \<open>ask\<close> when none is declared), returned as declared when it is one of \<open>allow\<close>,
  \<open>deny\<close>, \<open>ask\<close>.
\<close>

theorem evaluateCommand_highest_priority_matching_rule:
  assumes en: "isPolicyGateEnabled e" and lp: "loadPolicy e now s = (Some p, s1)"
  shows
    "((\<forall>r\<in>set (declaredRules p). \<not> ruleApplies e (buildDetails command os) r) \<longrightarrow>
        decision (fst (evaluateCommand e now command os s))
          = normalizeAction (orElse (defaultAction p) ''ask'')
        \<and> matchedRule (fst (evaluateCommand e now command os s)) = None
        \<and> (\<forall>x. defaultAction p = Some (decisionName x) \<longrightarrow>
              decision (fst (evaluateCommand e now command os s)) = x))
     \<and> ((\<exists>r\<in>set (declaredRules p). ruleApplies e (buildDetails command os) r) \<longrightarrow>
          (\<exists>i<length (declaredRules p).
              ruleApplies e (buildDetails command os) (declaredRules p ! i)
            \<and> (\<forall>j<length (declaredRules p).
                  ruleApplies e (buildDetails command os) (declaredRules p ! j) \<longrightarrow>
                    rulePriority (declaredRules p ! j) \<le> rulePriority (declaredRules p ! i)
                    \<and> (rulePriority (declaredRules p ! j) = rulePriority (declaredRules p ! i)
                          \<longrightarrow> i \<le> j))
            \<and> decision (fst (evaluateCommand e now command os s))
                = normalizeAction (action (declaredRules p ! i))
            \<and> matchedRule (fst (evaluateCommand e now command os s))
                = Some (ruleId (declaredRules p ! i))))"
proof -
  let ?d = "buildDetails command os"
  let ?res = "fst (evaluateCommand e now command os s)"
  have none: "decision ?res = normalizeAction (orElse (defaultAction p) ''ask'')
              \<and> matchedRule ?res = None
              \<and> (\<forall>x. defaultAction p = Some (decisionName x) \<longrightarrow> decision ?res = x)"
    if "\<forall>r\<in>set (declaredRules p). \<not> ruleApplies e ?d r"
  proof -
    from that have f: "find (allMatch e ?d) (commandRules p) = None"
      by (simp add: find_commandRules)
    then have d: "decision ?res = normalizeAction (orElse (defaultAction p) ''ask'')"
      and m: "matchedRule ?res = None"
      using en lp by (simp_all add: evaluateCommand_def Let_def)
    have "decision ?res = x" if "defaultAction p = Some (decisionName x)" for x
    proof -
      have "orElse (defaultAction p) ''ask'' = decisionName x"
        using that by (cases x) (simp_all add: orElse_def truthy_def decisionName_def)
      with d show ?thesis by (simp add: normalizeAction_decisionName)
    qed
    with d m show ?thesis by blast
  qed
  have some: "\<exists>i<length (declaredRules p).
              ruleApplies e ?d (declaredRules p ! i)
            \<and> (\<forall>j<length (declaredRules p).
                  ruleApplies e ?d (declaredRules p ! j) \<longrightarrow>
                    rulePriority (declaredRules p ! j) \<le> rulePriority (declaredRules p ! i)
                    \<and> (rulePriority (declaredRules p ! j) = rulePriority (declaredRules p ! i)
                          \<longrightarrow> i \<le> j))
            \<and> decision ?res = normalizeAction (action (declaredRules p ! i))
            \<and> matchedRule ?res = Some (ruleId (declaredRules p ! i))"
    if "\<exists>r\<in>set (declaredRules p). ruleApplies e ?d r"
  proof -
    from that have "find (allMatch e ?d) (commandRules p) \<noteq> None"
      by (simp add: find_commandRules)
    then obtain r where f: "find (allMatch e ?d) (commandRules p) = Some r" by auto
    then have d: "decision ?res = normalizeAction (action r)"
      and m: "matchedRule ?res = Some (ruleId r)"
      using en lp by (simp_all add: evaluateCommand_def Let_def)
    from find_commandRules_Some [OF f] d m show ?thesis by blast
  qed
  from none some show ?thesis by blast
qed


lemma demo_gate_enabled: "isPolicyGateEnabled demoGateEnv"
  by (simp add: isPolicyGateEnabled_def demoGateEnv_def toLowerCase_def)

lemma demo_loadPolicy:
  "loadPolicy demoGateEnv 1000 emptyGate
     = (Some demoPolicy,
        emptyGate\<lparr>lastPolicyCheck := 1000, cachedPolicy := Some demoPolicy,
                   cachedPolicyMtime := 5\<rparr>)"
  by (simp add: loadPolicy_def demoGateEnv_def emptyGate_def Let_def)

lemma demo_declared:
  "declaredRules demoPolicy
     = [gitRule ''low-priority-deny'' ''deny'' 1 True,
        gitRule ''disabled-deny'' ''deny'' 100 False,
        gitRule ''high-priority-allow'' ''allow'' 10 True]"
  by (simp add: declaredRules_def demoPolicy_def)

lemma demo_applies_git:
  "ruleApplies demoGateEnv (buildDetails ''git status'' noOpts) (gitRule name act prio en) = en"
  by (simp add: ruleApplies_def gitRule_def buildDetails_def base_git evaluateCondition_def
      getNestedValue_def detailsProp_def strictEq_def Let_def)

lemma demo_priority: "rulePriority (gitRule name act prio en) = prio"
  by (simp add: rulePriority_def gitRule_def)

lemma demo_action:
  "action (gitRule name act prio en) = act" "ruleId (gitRule name act prio en) = name"
  by (simp_all add: gitRule_def)

lemma demo_applies_ls:
  "\<not> ruleApplies demoGateEnv (buildDetails ''ls'' noOpts) (gitRule name act prio en)"
  by (simp add: ruleApplies_def gitRule_def buildDetails_def base_ls evaluateCondition_def
      getNestedValue_def detailsProp_def strictEq_def Let_def)

theorem evaluateCommand_highest_priority_matching_rule_witness:
  "decision (fst (evaluateCommand demoGateEnv 1000 ''git status'' noOpts emptyGate)) = Allow
   \<and> matchedRule (fst (evaluateCommand demoGateEnv 1000 ''git status'' noOpts emptyGate))
       = Some ''high-priority-allow''
   \<and> decision (fst (evaluateCommand demoGateEnv 1000 ''ls'' noOpts emptyGate)) = Deny
   \<and> matchedRule (fst (evaluateCommand demoGateEnv 1000 ''ls'' noOpts emptyGate)) = None"
proof -
  let ?git = "fst (evaluateCommand demoGateEnv 1000 ''git status'' noOpts emptyGate)"
  let ?ls = "fst (evaluateCommand demoGateEnv 1000 ''ls'' noOpts emptyGate)"
  let ?d = "buildDetails ''git status'' noOpts"
  let ?rs = "declaredRules demoPolicy"
  have ex: "\<exists>r\<in>set ?rs. ruleApplies demoGateEnv ?d r"
    by (simp add: demo_declared demo_applies_git)
  from evaluateCommand_highest_priority_matching_rule [OF demo_gate_enabled demo_loadPolicy, of "''git status''" noOpts] ex
  obtain i where i: "i < length ?rs" "ruleApplies demoGateEnv ?d (?rs ! i)"
    and top: "\<forall>j<length ?rs. ruleApplies demoGateEnv ?d (?rs ! j) \<longrightarrow>
                rulePriority (?rs ! j) \<le> rulePriority (?rs ! i)
                \<and> (rulePriority (?rs ! j) = rulePriority (?rs ! i) \<longrightarrow> i \<le> j)"
    and dec: "decision ?git = normalizeAction (action (?rs ! i))"
    and mr: "matchedRule ?git = Some (ruleId (?rs ! i))"
    by blast
  from i(1) have "i = 0 \<or> i = 1 \<or> i = 2"
    by (auto simp: demo_declared)
  moreover have "i \<noteq> 1"
    using i(2) by (auto simp: demo_declared demo_applies_git)
  moreover have "i \<noteq> 0"
  proof
    assume "i = 0"
    with top [rule_format, of 2] show False
      by (simp add: demo_declared demo_applies_git demo_priority)
  qed
  ultimately have "i = 2" by simp
  with dec mr have git: "decision ?git = Allow" "matchedRule ?git = Some ''high-priority-allow''"
    by (simp_all add: demo_declared demo_action normalizeAction_def toLowerCase_def)
  have no: "\<forall>r\<in>set ?rs. \<not> ruleApplies demoGateEnv (buildDetails ''ls'' noOpts) r"
    by (simp add: demo_declared demo_applies_ls)
  from evaluateCommand_highest_priority_matching_rule [OF demo_gate_enabled demo_loadPolicy, of "''ls''" noOpts] no
  have "decision ?ls = normalizeAction (orElse (defaultAction demoPolicy) ''ask'')"
    and ls2: "matchedRule ?ls = None"
    by blast+
  then have ls: "decision ?ls = Deny"
    by (simp add: demoPolicy_def orElse_def truthy_def normalizeAction_def toLowerCase_def)
  from git ls ls2 show ?thesis by simp
qed

end
